theory Spec2Isabelle
  imports Complex_Main "HOL-Library.Char_ord" "HOL-Library.List_Lexorder"
begin

section \<open>Tableau export pipeline: a model of \<open>scripts/export_tableau_data.py\<close>\<close>

text \<open>
  The script reads a relational source and builds five extracts with pandas. Each
  extract builder is modelled as a function from the tables it reads (lists of rows, in
  table order) to the frame it writes (a list of rows, in frame order).

  Conventions of the model:
  \<^item> a column that may hold NULL / NaN / NaT / \<open><NA>\<close> has an \<open>option\<close> type, \<open>None\<close> being
    the missing value; primary keys (\<open>orders.order_id\<close>, \<open>customers.customer_id\<close>,
    \<open>sellers.seller_id\<close>) are not nullable, foreign keys and all measured columns are;
  \<^item> a timestamp is the number of seconds since the epoch (the data has a resolution of
    one second), already parsed: \<open>pd.to_datetime\<close> maps NULL and unparsable text to NaT;
  \<^item> a floating point number is modelled by the rational it denotes, so rounding error
    of the double arithmetic is not modelled; NaN and the infinities are explicit;
  \<^item> a pandas call that raises is a value \<open>Inl e\<close> of the result type.

  \<open>export_product_sales\<close> and \<open>main\<close> are not modelled: no property below is about them.
\<close>

subsection \<open>Pandas and SQL primitives\<close>

datatype error =
    Bin_edges_must_be_unique
      \<comment> \<open>ValueError of \<open>qcut\<close> with \<open>duplicates='raise'\<close>\<close>
  | Bin_labels_must_be_one_fewer_than_the_number_of_bin_edges
      \<comment> \<open>ValueError of \<open>qcut\<close> when the labels do not fit the edges that remain\<close>

text \<open>
  A left join: every left row is kept; it is paired with each right row that matches,
  or once with \<open>None\<close> (all right columns missing) when none does. This is the shape of
  both SQL's \<open>LEFT JOIN ... ON\<close> and \<open>DataFrame.merge(how='left')\<close>, which keeps the order
  of the left rows; they differ in the matching predicate only.
\<close>

definition left_join :: "('a \<Rightarrow> 'b \<Rightarrow> bool) \<Rightarrow> 'a list \<Rightarrow> 'b list \<Rightarrow> ('a \<times> 'b option) list" where
  "left_join on ls rs =
     concat (map (\<lambda>l. case filter (on l) rs of
                          [] \<Rightarrow> [(l, None)]
                        | m # ms \<Rightarrow> map (\<lambda>r. (l, Some r)) (m # ms)) ls)"

text \<open>\<open>drop_duplicates(subset=key, keep='first')\<close>: a row is dropped when a row with the
  same key came before it (missing keys are equal to each other).\<close>

fun drop_duplicates_from :: "('a \<Rightarrow> 'k) \<Rightarrow> 'k list \<Rightarrow> 'a list \<Rightarrow> 'a list" where
  "drop_duplicates_from key seen [] = []"
| "drop_duplicates_from key seen (x # xs) =
     (if key x \<in> set seen then drop_duplicates_from key seen xs
      else x # drop_duplicates_from key (key x # seen) xs)"

definition drop_duplicates :: "('a \<Rightarrow> 'k) \<Rightarrow> 'a list \<Rightarrow> 'a list" where
  "drop_duplicates key xs = drop_duplicates_from key [] xs"

text \<open>The keys of a frame in order of first appearance.\<close>

definition unique_keys :: "'k list \<Rightarrow> 'k list" where
  "unique_keys ks = drop_duplicates (\<lambda>k. k) ks"

text \<open>Aggregates that skip missing values. SQL's \<open>SUM\<close> and \<open>MAX\<close> are NULL when no value
  is present; pandas' \<open>sum\<close> is 0 then.\<close>

definition present :: "'a option list \<Rightarrow> 'a list" where
  "present xs = concat (map (\<lambda>x. case x of None \<Rightarrow> [] | Some v \<Rightarrow> [v]) xs)"

definition sql_sum :: "('a::comm_monoid_add) option list \<Rightarrow> 'a option" where
  "sql_sum xs = (case present xs of [] \<Rightarrow> None | v # vs \<Rightarrow> Some (sum_list (v # vs)))"

definition list_max :: "('a::linorder) list \<Rightarrow> 'a option" where
  "list_max xs = (case xs of [] \<Rightarrow> None | v # vs \<Rightarrow> Some (fold max vs v))"

definition list_min :: "('a::linorder) list \<Rightarrow> 'a option" where
  "list_min xs = (case xs of [] \<Rightarrow> None | v # vs \<Rightarrow> Some (fold min vs v))"

definition sql_max :: "('a::linorder) option list \<Rightarrow> 'a option" where
  "sql_max xs = list_max (present xs)"

text \<open>\<open>(end - start).dt.days\<close>: the day component of a timedelta, missing when either
  timestamp is; the component is the floor of the difference in days.\<close>

definition seconds_per_day :: int where
  "seconds_per_day = 86400"

definition dt_days :: "int option \<Rightarrow> int option \<Rightarrow> int option" where
  "dt_days end start =
     (case (end, start) of
        (Some e, Some s) \<Rightarrow> Some ((e - s) div seconds_per_day)
      | _ \<Rightarrow> None)"

subsection \<open>The source tables\<close>

record orders_row =
  order_id :: string
  customer_id :: "string option"
  order_status :: "string option"
  order_purchase_timestamp :: "int option"
  order_approved_at :: "int option"
  order_delivered_carrier_date :: "int option"
  order_delivered_customer_date :: "int option"
  order_estimated_delivery_date :: "int option"

record customers_row =
  c_customer_id :: string
  customer_unique_id :: "string option"
  customer_city :: "string option"
  customer_state :: "string option"
  customer_zip_code_prefix :: "string option"

record order_payments_row =
  p_order_id :: "string option"
  payment_value :: "rat option"
  payment_type :: "string option"
  payment_installments :: "int option"

record order_reviews_row =
  r_order_id :: "string option"
  review_score :: "int option"
  review_creation_date :: "int option"

subsection \<open>\<open>export_orders_fact\<close>\<close>

text \<open>The payments query: \<open>GROUP BY order_id\<close> with \<open>SUM\<close>, \<open>MAX\<close>, \<open>SUM\<close>, \<open>COUNT(*)\<close>.
  Rows whose \<open>order_id\<close> is NULL form one group.\<close>

record payments_df_row =
  pa_order_id :: "string option"
  total_payment_value :: "rat option"
  primary_payment_type :: "string option"
  total_installments :: "int option"
  payment_count :: nat

definition payments_query :: "order_payments_row list \<Rightarrow> payments_df_row list" where
  "payments_query order_payments =
     map (\<lambda>k. let g = filter (\<lambda>p. p_order_id p = k) order_payments in
            \<lparr> pa_order_id = k,
              total_payment_value = sql_sum (map payment_value g),
              primary_payment_type = sql_max (map payment_type g),
              total_installments = sql_sum (map payment_installments g),
              payment_count = length g \<rparr>)
         (unique_keys (map p_order_id order_payments))"

text \<open>A row of the \<open>orders_fact\<close> frame: the order, the columns joined to it, and the
  derived delivery fields. The calendar columns (\<open>order_year\<close>, \<open>order_month\<close>,
  \<open>order_quarter\<close>, \<open>order_day_of_week\<close>) are functions of the purchase timestamp alone
  and are left out.\<close>

record orders_fact_row =
  of_order :: orders_row
  of_customer :: "customers_row option"
  of_payments :: "payments_df_row option"
  of_review :: "order_reviews_row option"
  actual_delivery_days :: "int option"
  estimated_delivery_days :: "int option"
  delivery_delay_days :: "int option"
  on_time_delivery :: "string option"

definition delivered_mask :: "orders_row \<Rightarrow> bool" where
  "delivered_mask o_row = (order_status o_row = Some ''delivered'')"

text \<open>Arithmetic and comparison on a nullable column: a missing operand gives a missing
  difference, and every comparison with NaN is False.\<close>

definition nan_sub :: "int option \<Rightarrow> int option \<Rightarrow> int option" where
  "nan_sub a b = (case (a, b) of (Some x, Some y) \<Rightarrow> Some (x - y) | _ \<Rightarrow> None)"

definition nan_le_zero :: "int option \<Rightarrow> bool" where
  "nan_le_zero a = (case a of Some x \<Rightarrow> x \<le> 0 | None \<Rightarrow> False)"

definition actual_delivery_days_of :: "orders_row \<Rightarrow> int option" where
  "actual_delivery_days_of o_row =
     (if delivered_mask o_row
      then dt_days (order_delivered_customer_date o_row) (order_purchase_timestamp o_row)
      else None)"

definition estimated_delivery_days_of :: "orders_row \<Rightarrow> int option" where
  "estimated_delivery_days_of o_row =
     (if delivered_mask o_row
      then dt_days (order_estimated_delivery_date o_row) (order_purchase_timestamp o_row)
      else None)"

definition delivery_delay_days_of :: "orders_row \<Rightarrow> int option" where
  "delivery_delay_days_of o_row =
     nan_sub (actual_delivery_days_of o_row) (estimated_delivery_days_of o_row)"

text \<open>The comparison is mapped to \<open>'On Time'\<close> / \<open>'Late'\<close> on every row; then the rows
  outside the mask are set to None.\<close>

definition on_time_delivery_of :: "orders_row \<Rightarrow> string option" where
  "on_time_delivery_of o_row =
     (let mapped = (if nan_le_zero (delivery_delay_days_of o_row) then ''On Time'' else ''Late'')
      in if \<not> delivered_mask o_row then None else Some mapped)"

definition export_orders_fact ::
  "orders_row list \<Rightarrow> customers_row list \<Rightarrow> order_payments_row list \<Rightarrow> order_reviews_row list
     \<Rightarrow> orders_fact_row list" where
  "export_orders_fact orders customers order_payments order_reviews =
     (let orders_df = left_join (\<lambda>o_row c. customer_id o_row = Some (c_customer_id c)) orders customers;
          payments_df = payments_query order_payments;
          reviews_df = drop_duplicates r_order_id order_reviews;
          merged1 = left_join (\<lambda>(o_row, c) p. Some (order_id o_row) = pa_order_id p) orders_df payments_df;
          merged2 = left_join (\<lambda>((o_row, c), p) r. Some (order_id o_row) = r_order_id r) merged1 reviews_df
      in map (\<lambda>(((o_row, c), p), r).
                \<lparr> of_order = o_row, of_customer = c, of_payments = p, of_review = r,
                  actual_delivery_days = actual_delivery_days_of o_row,
                  estimated_delivery_days = estimated_delivery_days_of o_row,
                  delivery_delay_days = delivery_delay_days_of o_row,
                  on_time_delivery = on_time_delivery_of o_row \<rparr>) merged2)"

subsection \<open>Quantile cuts and ranks\<close>

text \<open>\<open>Series.quantile(q)\<close> on the values that are present (at least one), with the
  default linear interpolation: position \<open>q * (n - 1)\<close> in the sorted values.\<close>

definition quantile :: "rat list \<Rightarrow> rat \<Rightarrow> rat" where
  "quantile vals q =
     (let s = sort vals;
          n = length s;
          pos = q * of_nat (n - 1);
          lo = nat \<lfloor>pos\<rfloor>;
          hi = min (lo + 1) (n - 1);
          frac = pos - of_int \<lfloor>pos\<rfloor>
      in s ! lo + (s ! hi - s ! lo) * frac)"

datatype duplicates = Raise | Drop

text \<open>The bucket of one value (\<open>_bins_to_cuts\<close> with \<open>right=True\<close>,
  \<open>include_lowest=True\<close>): \<open>searchsorted(side='left')\<close> gives the number of edges below the
  value, the lowest edge itself belongs to the first bucket, and a value that is missing
  or falls outside the edges gets no label.\<close>

definition searchsorted_left :: "rat list \<Rightarrow> rat \<Rightarrow> nat" where
  "searchsorted_left bins v = length (takeWhile (\<lambda>b. b < v) bins)"

definition cut_label :: "rat list \<Rightarrow> int list \<Rightarrow> rat option \<Rightarrow> int option" where
  "cut_label bins labels x =
     (case x of
        None \<Rightarrow> None
      | Some v \<Rightarrow>
          (let ids = (if v = hd bins then 1 else searchsorted_left bins v)
           in if ids = length bins \<or> ids = 0 then None else Some (labels ! (ids - 1))))"

text \<open>\<open>pd.qcut(x, q, labels=labels, duplicates=...)\<close>. The edges are the quantiles at
  \<open>0, 1/q, ..., 1\<close>. Repeated edges raise under \<open>duplicates='raise'\<close> and are merged under
  \<open>duplicates='drop'\<close>; after that the number of labels has to be the number of buckets.
  On a column with no value present every edge is NaN, which counts as one repeated edge.\<close>

definition qcut :: "rat option list \<Rightarrow> nat \<Rightarrow> int list \<Rightarrow> duplicates \<Rightarrow> error + int option list" where
  "qcut x q labels dup =
     (case present x of
        [] \<Rightarrow>
          (if q + 1 \<noteq> 2
           then (case dup of Raise \<Rightarrow> Inl Bin_edges_must_be_unique
                           | Drop \<Rightarrow> Inl Bin_labels_must_be_one_fewer_than_the_number_of_bin_edges)
           else if length labels \<noteq> 1
           then Inl Bin_labels_must_be_one_fewer_than_the_number_of_bin_edges
           else Inr (map (\<lambda>_. None) x))
      | v # vs \<Rightarrow>
          (let bins = map (\<lambda>k. quantile (v # vs) (of_nat k / of_nat q)) [0..<q + 1];
               unique_bins = unique_keys bins;
               repeated = (length unique_bins < length bins \<and> length bins \<noteq> 2)
           in if repeated \<and> dup = Raise then Inl Bin_edges_must_be_unique
              else (let bins' = (if repeated then unique_bins else bins)
                    in if length labels \<noteq> length bins' - 1
                       then Inl Bin_labels_must_be_one_fewer_than_the_number_of_bin_edges
                       else Inr (map (cut_label bins' labels) x))))"

text \<open>\<open>Series.rank(method='first')\<close> on a column without missing values: the rows are
  sorted by value with a stable sort, and a row's rank is its position (from 1) in that
  order, as a float.\<close>

definition argsort :: "('a::linorder) list \<Rightarrow> nat list" where
  "argsort xs = sort_key (\<lambda>i. xs ! i) [0..<length xs]"

definition position :: "'a \<Rightarrow> 'a list \<Rightarrow> nat" where
  "position a xs = length (takeWhile (\<lambda>y. y \<noteq> a) xs)"

definition rank_first :: "('a::linorder) list \<Rightarrow> rat list" where
  "rank_first xs = map (\<lambda>i. of_nat (Suc (position i (argsort xs)))) [0..<length xs]"

text \<open>\<open>Series.rank(ascending=False, method='min')\<close>: the values present are sorted in
  descending order, and a value's rank is the position (from 1) of its first occurrence
  there; a missing value keeps a missing rank (\<open>na_option='keep'\<close>).\<close>

definition rank_min_desc :: "('a::linorder) option list \<Rightarrow> nat option list" where
  "rank_min_desc xs =
     (let s = rev (sort (present xs))
      in map (map_option (\<lambda>v. Suc (position v s))) xs)"

subsection \<open>\<open>export_customer_segments\<close>\<close>

record customer_orders_row =
  co_customer_unique_id :: "string option"
  co_customer_city :: "string option"
  co_customer_state :: "string option"
  co_order_id :: string
  co_order_purchase_timestamp :: "int option"
  co_payment_value :: "rat option"

text \<open>The query \<open>customers c JOIN orders o ON c.customer_id = o.customer_id WHERE
  o.order_status = 'delivered'\<close>, merged (left, on \<open>order_id\<close>) with the payments summed
  per order.\<close>

definition customer_orders_query ::
  "customers_row list \<Rightarrow> orders_row list \<Rightarrow> order_payments_row list \<Rightarrow> customer_orders_row list" where
  "customer_orders_query customers orders order_payments =
     (let joined = concat (map (\<lambda>c. map (\<lambda>o_row. (c, o_row))
                      (filter (\<lambda>o_row. customer_id o_row = Some (c_customer_id c) \<and> delivered_mask o_row)
                         orders)) customers);
          payments = payments_query order_payments
      in map (\<lambda>((c, o_row), p).
                \<lparr> co_customer_unique_id = customer_unique_id c,
                  co_customer_city = customer_city c,
                  co_customer_state = customer_state c,
                  co_order_id = order_id o_row,
                  co_order_purchase_timestamp = order_purchase_timestamp o_row,
                  co_payment_value = (case p of None \<Rightarrow> None | Some pr \<Rightarrow> total_payment_value pr) \<rparr>)
           (left_join (\<lambda>(c, o_row) p. Some (order_id o_row) = pa_order_id p) joined payments))"

text \<open>\<open>groupby(key)\<close>: the groups are the keys present, in sorted order; rows with a
  missing key belong to no group.\<close>

definition groupby_keys :: "('k::linorder) option list \<Rightarrow> 'k list" where
  "groupby_keys ks = sort (remdups (present ks))"

definition first_present :: "'a option list \<Rightarrow> 'a option" where
  "first_present xs = (case present xs of [] \<Rightarrow> None | v # vs \<Rightarrow> Some v)"

record rfm_row =
  rfm_customer_unique_id :: string
  recency :: "int option"
  frequency :: nat
  monetary :: rat
  rfm_customer_city :: "string option"
  rfm_customer_state :: "string option"

definition analysis_date :: "customer_orders_row list \<Rightarrow> int option" where
  "analysis_date customer_orders =
     map_option (\<lambda>m. m + 1 * seconds_per_day)
       (list_max (present (map co_order_purchase_timestamp customer_orders)))"

definition rfm_metrics :: "customer_orders_row list \<Rightarrow> rfm_row list" where
  "rfm_metrics customer_orders =
     map (\<lambda>k. let g = filter (\<lambda>r. co_customer_unique_id r = Some k) customer_orders in
            \<lparr> rfm_customer_unique_id = k,
              recency = dt_days (analysis_date customer_orders)
                          (list_max (present (map co_order_purchase_timestamp g))),
              frequency = length (map co_order_id g),
              monetary = sum_list (present (map co_payment_value g)),
              rfm_customer_city = first_present (map co_customer_city g),
              rfm_customer_state = first_present (map co_customer_state g) \<rparr>)
         (groupby_keys (map co_customer_unique_id customer_orders))"

text \<open>The decimal numeral of an integer (Python's \<open>str\<close>).\<close>

fun str_nat :: "nat \<Rightarrow> string" where
  "str_nat n =
     (if n < 10 then [''0123456789'' ! n]
      else str_nat (n div 10) @ [''0123456789'' ! (n mod 10)])"

declare str_nat.simps [simp del]

definition str_int :: "int \<Rightarrow> string" where
  "str_int i = (if i < 0 then CHR ''-'' # str_nat (nat (- i)) else str_nat (nat i))"

text \<open>\<open>astype(str)\<close> on a nullable integer column, and \<open>+\<close> on columns of text. The
  script does not fix the version of pandas, and the two differ on a missing value:
  before 3.0 \<open>astype(str)\<close> turns it into the text \<open><NA>\<close>; from 3.0 on it stays missing,
  and a concatenation is missing where an operand is.\<close>

datatype pandas_version = Before_3_0 | From_3_0

definition astype_str :: "pandas_version \<Rightarrow> int option \<Rightarrow> string option" where
  "astype_str version x =
     (case x of
        Some i \<Rightarrow> Some (str_int i)
      | None \<Rightarrow> (case version of Before_3_0 \<Rightarrow> Some ''<NA>'' | From_3_0 \<Rightarrow> None))"

definition str_add :: "string option \<Rightarrow> string option \<Rightarrow> string option" where
  "str_add a b = (case (a, b) of (Some s, Some t) \<Rightarrow> Some (s @ t) | _ \<Rightarrow> None)"

definition rfm_score_str ::
  "pandas_version \<Rightarrow> int option \<Rightarrow> int option \<Rightarrow> int option \<Rightarrow> string option" where
  "rfm_score_str version r_score f_score m_score =
     str_add (str_add (astype_str version r_score) (astype_str version f_score))
       (astype_str version m_score)"

definition segment_customer :: "int option \<Rightarrow> int option \<Rightarrow> string" where
  "segment_customer r_score f_score =
     (case (r_score, f_score) of
        (Some r, Some f) \<Rightarrow>
          (if r \<ge> 4 \<and> f \<ge> 4 then ''Champions''
           else if r \<ge> 3 \<and> f \<ge> 3 then ''Loyal Customers''
           else if r \<ge> 4 \<and> f \<le> 2 then ''New Customers''
           else if r \<ge> 3 \<and> f \<le> 2 then ''Potential Loyalists''
           else if r \<le> 2 \<and> f \<ge> 3 then ''At Risk''
           else if r \<le> 2 \<and> f \<le> 2 then ''Hibernating''
           else ''Need Attention'')
      | _ \<Rightarrow> ''Unknown'')"

record customer_segments_row =
  cs_rfm :: rfm_row
  r_score :: "int option"
  f_score :: "int option"
  m_score :: "int option"
  rfm_score :: "string option"
  segment :: string
  first_purchase_date :: "int option"
  last_purchase_date :: "int option"
  customer_tenure_days :: "int option"
  cs_avg_order_value :: "rat option"

text \<open>The three score columns. The first \<open>qcut\<close> that raises ends the export.\<close>

definition r_score_column :: "rfm_row list \<Rightarrow> error + int option list" where
  "r_score_column rfm = qcut (map (\<lambda>r. map_option of_int (recency r)) rfm) 5 [5, 4, 3, 2, 1] Drop"

definition f_score_column :: "rfm_row list \<Rightarrow> error + int option list" where
  "f_score_column rfm = qcut (map Some (rank_first (map frequency rfm))) 5 [1, 2, 3, 4, 5] Raise"

definition m_score_column :: "rfm_row list \<Rightarrow> error + int option list" where
  "m_score_column rfm = qcut (map (\<lambda>r. Some (monetary r)) rfm) 5 [1, 2, 3, 4, 5] Drop"

definition rfm_scores ::
  "rfm_row list \<Rightarrow> error + (int option list \<times> int option list \<times> int option list)" where
  "rfm_scores rfm =
     (case r_score_column rfm of
        Inl e \<Rightarrow> Inl e
      | Inr r_scores \<Rightarrow>
     (case f_score_column rfm of
        Inl e \<Rightarrow> Inl e
      | Inr f_scores \<Rightarrow>
     (case m_score_column rfm of
        Inl e \<Rightarrow> Inl e
      | Inr m_scores \<Rightarrow> Inr (r_scores, f_scores, m_scores))))"

definition export_customer_segments ::
  "pandas_version \<Rightarrow> customers_row list \<Rightarrow> orders_row list \<Rightarrow> order_payments_row list
     \<Rightarrow> error + customer_segments_row list" where
  "export_customer_segments version customers orders order_payments =
     (let customer_orders = customer_orders_query customers orders order_payments;
          rfm = rfm_metrics customer_orders
      in case rfm_scores rfm of
           Inl e \<Rightarrow> Inl e
         | Inr (r_scores, f_scores, m_scores) \<Rightarrow>
             Inr (map (\<lambda>(row, r, f, m).
                    let g = filter (\<lambda>c. co_customer_unique_id c = Some (rfm_customer_unique_id row))
                              customer_orders;
                        first_date = list_min (present (map co_order_purchase_timestamp g));
                        last_date = list_max (present (map co_order_purchase_timestamp g))
                    in \<lparr> cs_rfm = row, r_score = r, f_score = f, m_score = m,
                         rfm_score = rfm_score_str version r f m,
                         segment = segment_customer r f,
                         first_purchase_date = first_date,
                         last_purchase_date = last_date,
                         customer_tenure_days = dt_days last_date first_date,
                         cs_avg_order_value =
                           (if frequency row = 0 then None
                            else Some (monetary row / of_nat (frequency row))) \<rparr>)
                  (zip rfm (zip r_scores (zip f_scores m_scores)))))"

subsection \<open>Floating point columns\<close>

text \<open>A float that is not NaN: a finite value (the rational it denotes; signed zeros
  are not told apart) or an infinity. A float column holds \<open>pyfloat\<close> values, \<open>None\<close>
  being NaN. Columns that can only hold finite values or NaN are kept as \<open>rat option\<close>.\<close>

datatype xrat = NInf | Fin rat | PInf

type_synonym pyfloat = "xrat option"

instantiation xrat :: linorder
begin

fun less_eq_xrat :: "xrat \<Rightarrow> xrat \<Rightarrow> bool" where
  "less_eq_xrat NInf y = True"
| "less_eq_xrat (Fin a) NInf = False"
| "less_eq_xrat (Fin a) (Fin b) = (a \<le> b)"
| "less_eq_xrat (Fin a) PInf = True"
| "less_eq_xrat PInf PInf = True"
| "less_eq_xrat PInf y = False"

definition less_xrat :: "xrat \<Rightarrow> xrat \<Rightarrow> bool" where
  "less_xrat x y = (x \<le> y \<and> \<not> y \<le> x)"

instance
proof
  fix x y z :: xrat
  show "(x < y) = (x \<le> y \<and> \<not> y \<le> x)" by (simp add: less_xrat_def)
  show "x \<le> x" by (cases x) simp_all
  show "x \<le> y \<Longrightarrow> y \<le> z \<Longrightarrow> x \<le> z" by (cases x; cases y; cases z) simp_all
  show "x \<le> y \<Longrightarrow> y \<le> x \<Longrightarrow> x = y" by (cases x; cases y) simp_all
  show "x \<le> y \<or> y \<le> x" by (cases x; cases y) auto
qed

end

definition xsgn :: "xrat \<Rightarrow> int" where
  "xsgn x = (case x of NInf \<Rightarrow> - 1 | Fin a \<Rightarrow> (if a < 0 then - 1 else if a = 0 then 0 else 1) | PInf \<Rightarrow> 1)"

definition xinf :: "int \<Rightarrow> pyfloat" where
  "xinf s = (if s = 0 then None else if s < 0 then Some NInf else Some PInf)"

definition fl :: "rat option \<Rightarrow> pyfloat" where
  "fl x = map_option Fin x"

definition fl_neg :: "pyfloat \<Rightarrow> pyfloat" where
  "fl_neg x = map_option (\<lambda>v. case v of NInf \<Rightarrow> PInf | Fin a \<Rightarrow> Fin (- a) | PInf \<Rightarrow> NInf) x"

definition fl_add :: "pyfloat \<Rightarrow> pyfloat \<Rightarrow> pyfloat" where
  "fl_add x y =
     (case (x, y) of
        (Some (Fin a), Some (Fin b)) \<Rightarrow> Some (Fin (a + b))
      | (Some (Fin a), Some j) \<Rightarrow> Some j
      | (Some i, Some (Fin b)) \<Rightarrow> Some i
      | (Some i, Some j) \<Rightarrow> (if i = j then Some i else None)
      | _ \<Rightarrow> None)"

definition fl_sub :: "pyfloat \<Rightarrow> pyfloat \<Rightarrow> pyfloat" where
  "fl_sub x y = fl_add x (fl_neg y)"

definition fl_mul :: "pyfloat \<Rightarrow> pyfloat \<Rightarrow> pyfloat" where
  "fl_mul x y =
     (case (x, y) of
        (Some (Fin a), Some (Fin b)) \<Rightarrow> Some (Fin (a * b))
      | (Some i, Some j) \<Rightarrow> xinf (xsgn i * xsgn j)
      | _ \<Rightarrow> None)"

text \<open>Division of floats does not raise: \<open>0/0\<close> is NaN and \<open>a/0\<close> is an infinity.\<close>

definition fl_div :: "pyfloat \<Rightarrow> pyfloat \<Rightarrow> pyfloat" where
  "fl_div x y =
     (case (x, y) of
        (Some (Fin a), Some (Fin b)) \<Rightarrow> (if b = 0 then xinf (xsgn (Fin a)) else Some (Fin (a / b)))
      | (Some (Fin a), Some j) \<Rightarrow> Some (Fin 0)
      | (Some i, Some (Fin b)) \<Rightarrow> xinf (xsgn i * (if b < 0 then - 1 else 1))
      | _ \<Rightarrow> None)"

text \<open>\<open>round(decimals)\<close>: scale, round half to even, scale back.\<close>

definition round_half_even :: "rat \<Rightarrow> int" where
  "round_half_even x =
     (let f = \<lfloor>x\<rfloor>; d = x - of_int f
      in if d < 1 / 2 then f else if d > 1 / 2 then f + 1 else if even f then f else f + 1)"

definition py_round :: "nat \<Rightarrow> rat \<Rightarrow> rat" where
  "py_round decimals x = of_int (round_half_even (x * 10 ^ decimals)) / 10 ^ decimals"

definition fl_round :: "nat \<Rightarrow> pyfloat \<Rightarrow> pyfloat" where
  "fl_round decimals x =
     map_option (\<lambda>v. case v of Fin a \<Rightarrow> Fin (py_round decimals a) | i \<Rightarrow> i) x"

text \<open>\<open>mean\<close> skips missing values and is NaN when none is present; \<open>nunique\<close> counts the
  distinct values present.\<close>

definition mean :: "rat option list \<Rightarrow> rat option" where
  "mean xs = (case present xs of [] \<Rightarrow> None | v # vs \<Rightarrow> Some (sum_list (v # vs) / of_nat (length (v # vs))))"

definition nunique :: "'a option list \<Rightarrow> nat" where
  "nunique xs = length (remdups (present xs))"

definition of_bool_rat :: "bool \<Rightarrow> rat option" where
  "of_bool_rat b = Some (if b then 1 else 0)"

subsection \<open>\<open>export_monthly_metrics\<close>\<close>

text \<open>\<open>dt.to_period('M')\<close>: the calendar month of a timestamp, as the number of months
  since year 0 (\<open>12 * year + month - 1\<close>); the rendering as text \<open>YYYY-MM\<close> that the script
  merges on is one-to-one with it. The civil date is computed from the day number.\<close>

definition civil_year_month :: "int \<Rightarrow> int \<times> int" where
  "civil_year_month days =
     (let z = days + 719468;
          era = z div 146097;
          doe = z mod 146097;
          yoe = (doe - doe div 1460 + doe div 36524 - doe div 146096) div 365;
          doy = doe - (365 * yoe + yoe div 4 - yoe div 100);
          mp = (5 * doy + 2) div 153;
          m = (if mp < 10 then mp + 3 else mp - 9);
          y = yoe + era * 400 + (if m \<le> 2 then 1 else 0)
      in (y, m))"

definition to_period_M :: "int option \<Rightarrow> int option" where
  "to_period_M ts =
     map_option (\<lambda>t. case civil_year_month (t div seconds_per_day) of (y, m) \<Rightarrow> 12 * y + m - 1) ts"

text \<open>A row of the \<open>orders\<close> frame of this export: \<open>orders o JOIN customers c\<close>, merged
  (left, on \<open>order_id\<close>) with the payments summed per order and with the first review of
  each order.\<close>

type_synonym monthly_orders_row =
  "((orders_row \<times> customers_row) \<times> payments_df_row option) \<times> order_reviews_row option"

definition mo_order :: "monthly_orders_row \<Rightarrow> orders_row" where
  "mo_order row = fst (fst (fst row))"

definition mo_customer_unique_id :: "monthly_orders_row \<Rightarrow> string option" where
  "mo_customer_unique_id row = customer_unique_id (snd (fst (fst row)))"

definition mo_order_month :: "monthly_orders_row \<Rightarrow> int option" where
  "mo_order_month row = to_period_M (order_purchase_timestamp (mo_order row))"

definition mo_payment_value :: "monthly_orders_row \<Rightarrow> rat option" where
  "mo_payment_value row = (case snd (fst row) of None \<Rightarrow> None | Some p \<Rightarrow> total_payment_value p)"

definition mo_review_score :: "monthly_orders_row \<Rightarrow> rat option" where
  "mo_review_score row = (case snd row of None \<Rightarrow> None | Some r \<Rightarrow> map_option of_int (review_score r))"

definition mo_delivery_days :: "monthly_orders_row \<Rightarrow> int option" where
  "mo_delivery_days row =
     dt_days (order_delivered_customer_date (mo_order row)) (order_purchase_timestamp (mo_order row))"

definition mo_estimated_days :: "monthly_orders_row \<Rightarrow> int option" where
  "mo_estimated_days row =
     dt_days (order_estimated_delivery_date (mo_order row)) (order_purchase_timestamp (mo_order row))"

definition mo_is_on_time :: "monthly_orders_row \<Rightarrow> bool" where
  "mo_is_on_time row =
     (case (mo_delivery_days row, mo_estimated_days row) of
        (Some d, Some e) \<Rightarrow> d \<le> e
      | _ \<Rightarrow> False)"

definition monthly_orders_query ::
  "orders_row list \<Rightarrow> customers_row list \<Rightarrow> order_payments_row list \<Rightarrow> order_reviews_row list
     \<Rightarrow> monthly_orders_row list" where
  "monthly_orders_query orders customers order_payments order_reviews =
     (let joined = concat (map (\<lambda>o_row. map (\<lambda>c. (o_row, c))
                      (filter (\<lambda>c. customer_id o_row = Some (c_customer_id c)) customers)) orders);
          merged1 = left_join (\<lambda>(o_row, c) p. Some (order_id o_row) = pa_order_id p) joined
                      (payments_query order_payments)
      in left_join (\<lambda>((o_row, c), p) r. Some (order_id o_row) = r_order_id r) merged1
           (drop_duplicates r_order_id order_reviews))"

record monthly_metrics_row =
  order_month :: int
  total_orders :: nat
  unique_customers :: nat
  total_revenue :: rat
  avg_order_value :: "rat option"
  avg_review_score :: "rat option"
  avg_delivery_days :: "rat option"
  on_time_delivery_rate :: "rat option"
  new_customers :: "nat option"
  returning_customers :: "int option"

text \<open>The first purchase month of each customer over all delivered orders, and the
  \<open>new_customers\<close> frame: one row for each month that has a new customer.\<close>

definition first_purchase :: "monthly_orders_row list \<Rightarrow> (string \<times> int option) list" where
  "first_purchase delivered =
     map (\<lambda>k. (k, list_min (present (map mo_order_month
                     (filter (\<lambda>row. mo_customer_unique_id row = Some k) delivered)))))
         (groupby_keys (map mo_customer_unique_id delivered))"

definition is_new_customer :: "monthly_orders_row \<times> (string \<times> int option) option \<Rightarrow> bool" where
  "is_new_customer rf =
     (case (mo_order_month (fst rf), snd rf) of
        (Some m, Some (k, Some fm)) \<Rightarrow> m = fm
      | _ \<Rightarrow> False)"

definition new_customers_frame :: "monthly_orders_row list \<Rightarrow> (int \<times> nat) list" where
  "new_customers_frame delivered =
     (let merged = left_join (\<lambda>row fp. mo_customer_unique_id row = Some (fst fp)) delivered
                     (first_purchase delivered);
          new_rows = map fst (filter is_new_customer merged)
      in map (\<lambda>k. (k, nunique (map mo_customer_unique_id
                        (filter (\<lambda>row. mo_order_month row = Some k) new_rows))))
           (groupby_keys (map mo_order_month new_rows)))"

definition export_monthly_metrics ::
  "orders_row list \<Rightarrow> customers_row list \<Rightarrow> order_payments_row list \<Rightarrow> order_reviews_row list
     \<Rightarrow> monthly_metrics_row list" where
  "export_monthly_metrics orders customers order_payments order_reviews =
     (let delivered = filter (\<lambda>row. delivered_mask (mo_order row))
                        (monthly_orders_query orders customers order_payments order_reviews);
          monthly = map (\<lambda>k. (k, filter (\<lambda>row. mo_order_month row = Some k) delivered))
                      (groupby_keys (map mo_order_month delivered))
      in map (\<lambda>((k, g), n).
                let new = map_option snd n in
                \<lparr> order_month = k,
                  total_orders = length g,
                  unique_customers = nunique (map mo_customer_unique_id g),
                  total_revenue = py_round 2 (sum_list (present (map mo_payment_value g))),
                  avg_order_value = map_option (py_round 2) (mean (map mo_payment_value g)),
                  avg_review_score = map_option (py_round 2) (mean (map mo_review_score g)),
                  avg_delivery_days =
                    map_option (py_round 1) (mean (map (\<lambda>row. map_option of_int (mo_delivery_days row)) g)),
                  on_time_delivery_rate =
                    map_option (\<lambda>x. py_round 2 (x * 100)) (mean (map (\<lambda>row. of_bool_rat (mo_is_on_time row)) g)),
                  new_customers = new,
                  returning_customers =
                    (case new of None \<Rightarrow> None
                     | Some c \<Rightarrow> Some (int (nunique (map mo_customer_unique_id g)) - int c)) \<rparr>)
           (left_join (\<lambda>(k, g) n. k = fst n) monthly (new_customers_frame delivered)))"

subsection \<open>\<open>export_seller_performance\<close>\<close>

record sellers_row =
  seller_id :: string
  seller_city :: "string option"
  seller_state :: "string option"

record order_items_row =
  oi_order_id :: "string option"
  oi_seller_id :: "string option"
  price :: "rat option"
  freight_value :: "rat option"

text \<open>\<open>sellers s JOIN order_items oi ON s.seller_id = oi.seller_id JOIN orders o ON
  oi.order_id = o.order_id WHERE o.order_status = 'delivered'\<close>.\<close>

definition seller_items_query ::
  "sellers_row list \<Rightarrow> order_items_row list \<Rightarrow> orders_row list
     \<Rightarrow> (sellers_row \<times> order_items_row \<times> orders_row) list" where
  "seller_items_query sellers order_items orders =
     concat (map (\<lambda>s. concat (map (\<lambda>oi. map (\<lambda>o_row. (s, oi, o_row))
               (filter (\<lambda>o_row. oi_order_id oi = Some (order_id o_row) \<and> delivered_mask o_row) orders))
               (filter (\<lambda>oi. oi_seller_id oi = Some (seller_id s)) order_items))) sellers)"

text \<open>\<open>order_reviews r JOIN order_items oi ON r.order_id = oi.order_id\<close>, one row kept
  for each pair of order and seller.\<close>

record seller_reviews_row =
  sr_seller_id :: "string option"
  sr_order_id :: "string option"
  sr_review_score :: "int option"

definition reviews_query :: "order_reviews_row list \<Rightarrow> order_items_row list \<Rightarrow> seller_reviews_row list" where
  "reviews_query order_reviews order_items =
     drop_duplicates (\<lambda>row. (sr_order_id row, sr_seller_id row))
       (concat (map (\<lambda>r. map (\<lambda>oi. \<lparr> sr_seller_id = oi_seller_id oi, sr_order_id = r_order_id r,
                                       sr_review_score = review_score r \<rparr>)
                  (filter (\<lambda>oi. r_order_id r \<noteq> None \<and> r_order_id r = oi_order_id oi) order_items))
          order_reviews))"

text \<open>The delivery query. \<open>JULIANDAY(end) - JULIANDAY(start)\<close> is the difference of the
  two timestamps in days, with its fractional part; it is NULL when a timestamp is.\<close>

definition julianday_diff :: "int option \<Rightarrow> int option \<Rightarrow> rat option" where
  "julianday_diff end start =
     (case (end, start) of
        (Some e, Some s) \<Rightarrow> Some (of_int (e - s) / of_int seconds_per_day)
      | _ \<Rightarrow> None)"

record delivery_row =
  d_seller_id :: "string option"
  d_order_id :: string
  delivery_days :: "rat option"
  estimated_days :: "rat option"
  is_on_time :: bool

definition delivery_where :: "orders_row \<Rightarrow> bool" where
  "delivery_where o_row =
     (delivered_mask o_row \<and> order_delivered_customer_date o_row \<noteq> None
        \<and> order_estimated_delivery_date o_row \<noteq> None)"

definition delivery_row_of :: "order_items_row \<Rightarrow> orders_row \<Rightarrow> delivery_row" where
  "delivery_row_of oi o_row =
     (let dd = julianday_diff (order_delivered_customer_date o_row) (order_purchase_timestamp o_row);
          ed = julianday_diff (order_estimated_delivery_date o_row) (order_purchase_timestamp o_row)
      in \<lparr> d_seller_id = oi_seller_id oi, d_order_id = order_id o_row,
           delivery_days = dd, estimated_days = ed,
           is_on_time = (case (dd, ed) of (Some d, Some e) \<Rightarrow> d \<le> e | _ \<Rightarrow> False) \<rparr>)"

definition delivery_query :: "order_items_row list \<Rightarrow> orders_row list \<Rightarrow> delivery_row list" where
  "delivery_query order_items orders =
     drop_duplicates (\<lambda>row. (d_order_id row, d_seller_id row))
       (concat (map (\<lambda>oi. map (delivery_row_of oi)
                  (filter (\<lambda>o_row. oi_order_id oi = Some (order_id o_row) \<and> delivery_where o_row) orders))
          order_items))"

text \<open>The merged frame, one row per seller with a delivered item, before scoring.\<close>

record seller_metrics_row =
  sm_seller_id :: string
  sm_total_orders :: nat
  sm_total_revenue :: rat
  sm_total_freight :: rat
  sm_seller_city :: "string option"
  sm_seller_state :: "string option"
  sm_avg_review_score :: "rat option"
  sm_review_count :: "nat option"
  sm_on_time_rate :: "rat option"
  sm_avg_delivery_days :: "rat option"

definition seller_metrics ::
  "sellers_row list \<Rightarrow> order_items_row list \<Rightarrow> orders_row list \<Rightarrow> order_reviews_row list
     \<Rightarrow> seller_metrics_row list" where
  "seller_metrics sellers order_items orders order_reviews =
     (let seller_items = seller_items_query sellers order_items orders;
          reviews = reviews_query order_reviews order_items;
          delivery = delivery_query order_items orders;
          seller_revenue =
            map (\<lambda>k. (k, filter (\<lambda>(s, oi, o_row). seller_id s = k) seller_items))
              (groupby_keys (map (\<lambda>(s, oi, o_row). Some (seller_id s)) seller_items));
          seller_reviews =
            map (\<lambda>k. let g = filter (\<lambda>row. sr_seller_id row = Some k) reviews in
                   (k, mean (map (\<lambda>row. map_option of_int (sr_review_score row)) g),
                       length (present (map sr_review_score g))))
              (groupby_keys (map sr_seller_id reviews));
          seller_delivery =
            map (\<lambda>k. let g = filter (\<lambda>row. d_seller_id row = Some k) delivery in
                   (k, mean (map (\<lambda>row. of_bool_rat (is_on_time row)) g), mean (map delivery_days g)))
              (groupby_keys (map d_seller_id delivery));
          merged1 = left_join (\<lambda>(k, g) rv. k = fst rv) seller_revenue seller_reviews;
          merged2 = left_join (\<lambda>((k, g), rv) dl. k = fst dl) merged1 seller_delivery
      in map (\<lambda>(((k, g), rv), dl).
                \<lparr> sm_seller_id = k,
                  sm_total_orders = nunique (map (\<lambda>(s, oi, o_row). Some (order_id o_row)) g),
                  sm_total_revenue = sum_list (present (map (\<lambda>(s, oi, o_row). price oi) g)),
                  sm_total_freight = sum_list (present (map (\<lambda>(s, oi, o_row). freight_value oi) g)),
                  sm_seller_city = first_present (map (\<lambda>(s, oi, o_row). seller_city s) g),
                  sm_seller_state = first_present (map (\<lambda>(s, oi, o_row). seller_state s) g),
                  sm_avg_review_score = (case rv of None \<Rightarrow> None | Some (k', avg, cnt) \<Rightarrow> avg),
                  sm_review_count = (case rv of None \<Rightarrow> None | Some (k', avg, cnt) \<Rightarrow> Some cnt),
                  sm_on_time_rate = (case dl of None \<Rightarrow> None | Some (k', rate, days) \<Rightarrow> rate),
                  sm_avg_delivery_days = (case dl of None \<Rightarrow> None | Some (k', rate, days) \<Rightarrow> days) \<rparr>)
           merged2)"

text \<open>Scoring and ranking (from the comment \<open>Calculate composite score\<close> on). The
  columns that the script rounds after scoring are rounded in the output row.\<close>

record seller_performance_row =
  sp_metrics :: seller_metrics_row
  total_revenue_rounded :: rat
  avg_review_score_rounded :: "rat option"
  on_time_rate_pct :: "rat option"
  avg_delivery_days_rounded :: "rat option"
  revenue_score :: pyfloat
  review_score_normalized :: pyfloat
  delivery_score :: pyfloat
  composite_score :: pyfloat
  seller_rank :: "nat option"

definition revenue_score_of :: "seller_metrics_row list \<Rightarrow> seller_metrics_row \<Rightarrow> pyfloat" where
  "revenue_score_of frame row =
     (let mn = fl (list_min (map sm_total_revenue frame));
          mx = fl (list_max (map sm_total_revenue frame))
      in fl_mul (fl_div (fl_sub (Some (Fin (sm_total_revenue row))) mn) (fl_sub mx mn)) (Some (Fin 100)))"

definition review_score_normalized_of :: "seller_metrics_row \<Rightarrow> pyfloat" where
  "review_score_normalized_of row =
     fl_mul (fl_div (fl (sm_avg_review_score row)) (Some (Fin 5))) (Some (Fin 100))"

definition delivery_score_of :: "seller_metrics_row \<Rightarrow> pyfloat" where
  "delivery_score_of row = fl_mul (fl (sm_on_time_rate row)) (Some (Fin 100))"

definition composite_score_of :: "seller_metrics_row list \<Rightarrow> seller_metrics_row \<Rightarrow> pyfloat" where
  "composite_score_of frame row =
     fl_round 2
       (fl_add (fl_add (fl_mul (revenue_score_of frame row) (Some (Fin (3 / 10))))
                       (fl_mul (review_score_normalized_of row) (Some (Fin (4 / 10)))))
               (fl_mul (delivery_score_of row) (Some (Fin (3 / 10)))))"

definition seller_ranks :: "pyfloat list \<Rightarrow> nat option list" where
  "seller_ranks composite = rank_min_desc composite"

definition seller_scores :: "seller_metrics_row list \<Rightarrow> seller_performance_row list" where
  "seller_scores frame =
     map (\<lambda>(row, rank).
            \<lparr> sp_metrics = row,
              total_revenue_rounded = py_round 2 (sm_total_revenue row),
              avg_review_score_rounded = map_option (py_round 2) (sm_avg_review_score row),
              on_time_rate_pct = map_option (\<lambda>x. py_round 2 (x * 100)) (sm_on_time_rate row),
              avg_delivery_days_rounded = map_option (py_round 1) (sm_avg_delivery_days row),
              revenue_score = revenue_score_of frame row,
              review_score_normalized = review_score_normalized_of row,
              delivery_score = delivery_score_of row,
              composite_score = composite_score_of frame row,
              seller_rank = rank \<rparr>)
         (zip frame (seller_ranks (map (composite_score_of frame) frame)))"

definition export_seller_performance ::
  "sellers_row list \<Rightarrow> order_items_row list \<Rightarrow> orders_row list \<Rightarrow> order_reviews_row list
     \<Rightarrow> seller_performance_row list" where
  "export_seller_performance sellers order_items orders order_reviews =
     seller_scores (seller_metrics sellers order_items orders order_reviews)"

subsection \<open>Example tables\<close>

definition delivered_order :: "string \<Rightarrow> string \<Rightarrow> int \<Rightarrow> int option \<Rightarrow> int option \<Rightarrow> orders_row" where
  "delivered_order oid cid purchase delivered estimated =
     \<lparr> order_id = oid, customer_id = Some cid, order_status = Some ''delivered'',
       order_purchase_timestamp = Some purchase, order_approved_at = None,
       order_delivered_carrier_date = None, order_delivered_customer_date = delivered,
       order_estimated_delivery_date = estimated \<rparr>"

definition customer :: "string \<Rightarrow> string \<Rightarrow> customers_row" where
  "customer cid uid =
     \<lparr> c_customer_id = cid, customer_unique_id = Some uid, customer_city = None,
       customer_state = None, customer_zip_code_prefix = None \<rparr>"

definition payment :: "string \<Rightarrow> rat \<Rightarrow> order_payments_row" where
  "payment oid v =
     \<lparr> p_order_id = Some oid, payment_value = Some v, payment_type = Some ''credit_card'',
       payment_installments = Some 1 \<rparr>"

definition review :: "string \<Rightarrow> int \<Rightarrow> order_reviews_row" where
  "review oid score = \<lparr> r_order_id = Some oid, review_score = Some score, review_creation_date = None \<rparr>"

definition item :: "string \<Rightarrow> string \<Rightarrow> rat \<Rightarrow> order_items_row" where
  "item oid sid p =
     \<lparr> oi_order_id = Some oid, oi_seller_id = Some sid, price = Some p, freight_value = Some 0 \<rparr>"

definition seller :: "string \<Rightarrow> sellers_row" where
  "seller sid = \<lparr> seller_id = sid, seller_city = None, seller_state = None \<rparr>"

text \<open>Midnight of 2024-01-10, in seconds since the epoch, and lengths of time.\<close>

definition jan10 :: int where
  "jan10 = 1704844800"

definition days :: "int \<Rightarrow> int" where
  "days n = n * 86400"

definition hours :: "int \<Rightarrow> int" where
  "hours n = n * 3600"

text \<open>Customer A with two delivered orders, customer B with one, and a canceled order
  without a customer id; the first order is paid in two parts and reviewed twice.\<close>

definition example_orders :: "orders_row list" where
  "example_orders =
     [delivered_order ''o1'' ''c1'' jan10 (Some (jan10 + days 5)) (Some (jan10 + days 10)),
      delivered_order ''o2'' ''c2'' (jan10 + days 3) (Some (jan10 + days 9)) (Some (jan10 + days 8)),
      delivered_order ''o3'' ''c3'' (jan10 + days 5) (Some (jan10 + days 6)) (Some (jan10 + days 9)),
      (delivered_order ''o4'' ''c9'' (jan10 + days 5) None None)
         \<lparr> customer_id := None, order_status := Some ''canceled'' \<rparr>]"

definition example_customers :: "customers_row list" where
  "example_customers = [customer ''c1'' ''A'', customer ''c2'' ''A'', customer ''c3'' ''B'']"

definition example_payments :: "order_payments_row list" where
  "example_payments = [payment ''o1'' 60, payment ''o1'' 40, payment ''o2'' 50, payment ''o3'' 150]"

definition example_reviews :: "order_reviews_row list" where
  "example_reviews = [review ''o1'' 5, review ''o1'' 1, review ''o2'' 4, review ''o3'' 4]"

definition example_sellers :: "sellers_row list" where
  "example_sellers = [seller ''s1'', seller ''s2'']"

definition example_items :: "order_items_row list" where
  "example_items = [item ''o1'' ''s1'' 100, item ''o2'' ''s1'' 50, item ''o3'' ''s2'' 300]"

text \<open>Five customers with one delivered order each.\<close>

definition five_customers :: "customers_row list" where
  "five_customers =
     [customer ''c1'' ''A'', customer ''c2'' ''B'', customer ''c3'' ''C'', customer ''c4'' ''D'',
      customer ''c5'' ''E'']"

definition five_orders :: "orders_row list" where
  "five_orders =
     [delivered_order ''o1'' ''c1'' (jan10 + days 2) None None,
      delivered_order ''o2'' ''c2'' (jan10 + days 2) None None,
      delivered_order ''o3'' ''c3'' (jan10 + days 2) None None,
      delivered_order ''o4'' ''c4'' (jan10 + days 1) None None,
      delivered_order ''o5'' ''c5'' jan10 None None]"

definition five_payments :: "order_payments_row list" where
  "five_payments =
     [payment ''o1'' 10, payment ''o2'' 20, payment ''o3'' 30, payment ''o4'' 40, payment ''o5'' 50]"

text \<open>Five orders on five different days, and a second, earlier order of customer A.\<close>

definition spread_orders :: "orders_row list" where
  "spread_orders =
     [delivered_order ''o1'' ''c1'' (jan10 + days 2) None None,
      delivered_order ''o2'' ''c2'' (jan10 + days 4) None None,
      delivered_order ''o3'' ''c3'' (jan10 + days 3) None None,
      delivered_order ''o4'' ''c4'' (jan10 + days 1) None None,
      delivered_order ''o5'' ''c5'' jan10 None None,
      delivered_order ''o6'' ''c1'' jan10 None None]"

text \<open>The same with a sixth customer F, whose only delivered order has no purchase
  timestamp.\<close>

definition undated_customers :: "customers_row list" where
  "undated_customers = five_customers @ [customer ''c6'' ''F'']"

definition undated_orders :: "orders_row list" where
  "undated_orders =
     spread_orders @
     [(delivered_order ''o7'' ''c6'' jan10 None None) \<lparr> order_purchase_timestamp := None \<rparr>]"

definition undated_payments :: "order_payments_row list" where
  "undated_payments = five_payments @ [payment ''o7'' 60]"

text \<open>Three sellers with the same total revenue.\<close>

definition seller_with_revenue :: "string \<Rightarrow> rat \<Rightarrow> rat \<Rightarrow> rat \<Rightarrow> seller_metrics_row" where
  "seller_with_revenue sid revenue score rate =
     \<lparr> sm_seller_id = sid, sm_total_orders = 1, sm_total_revenue = revenue, sm_total_freight = 0,
       sm_seller_city = None, sm_seller_state = None, sm_avg_review_score = Some score,
       sm_review_count = Some 1, sm_on_time_rate = Some rate, sm_avg_delivery_days = Some 5 \<rparr>"

definition equal_revenue_frame :: "seller_metrics_row list" where
  "equal_revenue_frame =
     [seller_with_revenue ''s1'' 50 5 1, seller_with_revenue ''s2'' 50 4 1,
      seller_with_revenue ''s3'' 50 3 0]"

section \<open>Properties\<close>

subsection \<open>Lists, keys and joins\<close>

lemma present_map_Some: "present (map Some xs) = xs"
  by (induction xs) (simp_all add: present_def)

lemma set_present: "set (present xs) = {v. Some v \<in> set xs}"
  by (induction xs) (auto simp: present_def split: option.splits)

lemma list_max_Some:
  "list_max xs = Some m \<Longrightarrow> m \<in> set xs \<and> (\<forall>x\<in>set xs. x \<le> m)"
proof (cases xs)
  case Nil
  then show "list_max xs = Some m \<Longrightarrow> ?thesis" by (simp add: list_max_def)
next
  case (Cons v vs)
  assume "list_max xs = Some m"
  then have "m = fold max vs v"
    using Cons by (simp add: list_max_def)
  then have "m = Max (set (v # vs))"
    by (simp only: Max.set_eq_fold)
  then show ?thesis
    using Cons by (metis List.finite_set Max_ge Max_in list.distinct(1) set_empty)
qed

lemma list_max_None: "list_max xs = None \<longleftrightarrow> xs = []"
  by (cases xs) (simp_all add: list_max_def)

lemma fold_min_const: "\<forall>x\<in>set vs. x = c \<Longrightarrow> fold min vs c = (c::'a::linorder)"
  by (induction vs) simp_all

lemma fold_max_const: "\<forall>x\<in>set vs. x = c \<Longrightarrow> fold max vs c = (c::'a::linorder)"
  by (induction vs) simp_all

lemma left_join_keeps_left:
  assumes "\<And>l. l \<in> set ls \<Longrightarrow> length (filter (on l) rs) \<le> 1"
  shows "map fst (left_join on ls rs) = ls"
  using assms
proof (induction ls)
  case Nil
  then show ?case by (simp add: left_join_def)
next
  case (Cons l ls)
  have rest: "map fst (left_join on ls rs) = ls"
    using Cons by simp
  have one: "length (filter (on l) rs) \<le> 1"
    using Cons.prems by simp
  have head: "map fst (case filter (on l) rs of [] \<Rightarrow> [(l, None)]
                 | m # ms \<Rightarrow> map (\<lambda>r. (l, Some r)) (m # ms)) = [l]"
  proof (cases "filter (on l) rs")
    case Nil
    then show ?thesis by simp
  next
    case (Cons m ms)
    with one have "ms = []" by simp
    with Cons show ?thesis by simp
  qed
  have "left_join on (l # ls) rs =
      (case filter (on l) rs of [] \<Rightarrow> [(l, None)] | m # ms \<Rightarrow> map (\<lambda>r. (l, Some r)) (m # ms))
      @ left_join on ls rs"
    by (simp add: left_join_def)
  with head rest show ?case by simp
qed

lemma distinct_key_filter_le_1:
  "distinct (map key rs) \<Longrightarrow> length (filter (\<lambda>r. key r = k) rs) \<le> 1"
proof (induction rs)
  case Nil
  then show ?case by simp
next
  case (Cons r rs)
  show ?case
  proof (cases "key r = k")
    case True
    from Cons.prems have "key r \<notin> key ` set rs" by simp
    then have "\<forall>x\<in>set rs. key x \<noteq> k"
      using True by (metis imageI)
    then have "filter (\<lambda>r. key r = k) rs = []"
      by (simp add: filter_empty_conv)
    with True show ?thesis by simp
  next
    case False
    with Cons show ?thesis by simp
  qed
qed

lemma drop_duplicates_from_keys:
  "distinct (map key (drop_duplicates_from key seen xs)) \<and>
   key ` set (drop_duplicates_from key seen xs) \<inter> set seen = {}"
proof (induction xs arbitrary: seen)
  case Nil
  then show ?case by simp
next
  case (Cons x xs)
  show ?case
  proof (cases "key x \<in> set seen")
    case True
    with Cons[of seen] show ?thesis by simp
  next
    case False
    with Cons[of "key x # seen"] show ?thesis by auto
  qed
qed

lemma distinct_drop_duplicates: "distinct (map key (drop_duplicates key xs))"
  by (simp add: drop_duplicates_def drop_duplicates_from_keys)

lemma distinct_unique_keys: "distinct (unique_keys ks)"
  using distinct_drop_duplicates[of "\<lambda>k. k" ks] by (simp add: unique_keys_def)

lemma payments_query_keys: "distinct (map pa_order_id (payments_query ps))"
proof -
  have "map pa_order_id (payments_query ps) = unique_keys (map p_order_id ps)"
    by (simp add: payments_query_def Let_def comp_def)
  then show ?thesis by (simp add: distinct_unique_keys)
qed

lemma drop_duplicates_from_distinct:
  "distinct xs \<Longrightarrow> set xs \<inter> set seen = {} \<Longrightarrow> drop_duplicates_from (\<lambda>k. k) seen xs = xs"
proof (induction xs arbitrary: seen)
  case Nil
  then show ?case by simp
next
  case (Cons x xs)
  from Cons.prems have "x \<notin> set seen" "distinct xs" "set xs \<inter> set (x # seen) = {}"
    by auto
  then show ?case using Cons.IH[of "x # seen"] by simp
qed

lemma unique_keys_distinct: "distinct ks \<Longrightarrow> unique_keys ks = ks"
  by (simp add: unique_keys_def drop_duplicates_def drop_duplicates_from_distinct)

subsection \<open>Orders fact: one row per order\<close>

text \<open>
  Claim C9. The \<open>orders_fact\<close> extract has exactly one row for each row of the orders
  table, in the same order: the left joins with the customers, with the payments
  aggregated per order and with the reviews deduplicated per order keep every order,
  also one whose join key is missing or matches nothing, and duplicate none. The
  payments and the reviews are reduced to one row per \<open>order_id\<close> by the export itself;
  for the customers table this is its primary key \<open>customer_id\<close>.
\<close>

theorem orders_fact_one_row_per_order:
  assumes "distinct (map c_customer_id customers)"
  shows "map of_order (export_orders_fact orders customers order_payments order_reviews) = orders"
proof -
  define orders_df where
    "orders_df = left_join (\<lambda>o_row c. customer_id o_row = Some (c_customer_id c)) orders customers"
  define merged1 where
    "merged1 = left_join (\<lambda>(o_row, c) p. Some (order_id o_row) = pa_order_id p) orders_df
                 (payments_query order_payments)"
  define merged2 where
    "merged2 = left_join (\<lambda>((o_row, c), p) r. Some (order_id o_row) = r_order_id r) merged1
                 (drop_duplicates r_order_id order_reviews)"
  have c: "length (filter (\<lambda>c. customer_id o_row = Some (c_customer_id c)) customers) \<le> 1" for o_row
  proof (cases "customer_id o_row")
    case None
    then show ?thesis by simp
  next
    case (Some k)
    have "filter (\<lambda>c. customer_id o_row = Some (c_customer_id c)) customers
            = filter (\<lambda>c. c_customer_id c = k) customers"
      using Some by (auto intro: filter_cong)
    then show ?thesis using distinct_key_filter_le_1[OF assms, of k] by simp
  qed
  have p: "length (filter (\<lambda>p. Some k = pa_order_id p) (payments_query order_payments)) \<le> 1" for k
    using distinct_key_filter_le_1[OF payments_query_keys, of "Some k" order_payments]
    by (simp add: eq_commute)
  have r: "length (filter (\<lambda>r. Some k = r_order_id r) (drop_duplicates r_order_id order_reviews)) \<le> 1" for k
    using distinct_key_filter_le_1[OF distinct_drop_duplicates, of r_order_id "Some k" order_reviews]
    by (simp add: eq_commute)
  have 1: "map fst orders_df = orders"
    unfolding orders_df_def by (rule left_join_keeps_left) (rule c)
  have 2: "map fst merged1 = orders_df"
    unfolding merged1_def by (rule left_join_keeps_left) (use p in auto)
  have 3: "map fst merged2 = merged1"
    unfolding merged2_def by (rule left_join_keeps_left) (use r in auto)
  have "map of_order (export_orders_fact orders customers order_payments order_reviews)
          = map (\<lambda>x. fst (fst (fst x))) merged2"
    by (simp add: export_orders_fact_def Let_def orders_df_def merged1_def merged2_def split_def comp_def)
  also have "\<dots> = map fst (map fst (map fst merged2))"
    by (simp add: comp_def)
  also have "\<dots> = orders"
    by (simp add: 1 2 3)
  finally show ?thesis .
qed

theorem orders_fact_one_row_per_order_witness:
  "distinct (map c_customer_id example_customers) \<and>
   map of_order (export_orders_fact example_orders example_customers example_payments example_reviews)
     = example_orders \<and>
   length (export_orders_fact example_orders example_customers example_payments example_reviews) = 4"
proof -
  let ?out = "export_orders_fact example_orders example_customers example_payments example_reviews"
  have h: "distinct (map c_customer_id example_customers)"
    by (simp add: example_customers_def customer_def)
  have e: "map of_order ?out = example_orders"
    by (rule orders_fact_one_row_per_order[OF h])
  have "length ?out = length (map of_order ?out)"
    by simp
  also have "\<dots> = 4"
    unfolding e by (simp add: example_orders_def)
  finally show ?thesis
    using h e by simp
qed

subsection \<open>Orders fact: the on-time field\<close>

lemma on_time_delivery_present:
  "on_time_delivery_of o_row \<noteq> None \<longleftrightarrow> delivered_mask o_row"
  by (simp add: on_time_delivery_of_def Let_def)

lemma on_time_delivery_with_delay:
  "delivered_mask o_row \<Longrightarrow> delivery_delay_days_of o_row = Some d \<Longrightarrow>
     on_time_delivery_of o_row = Some (if d \<le> 0 then ''On Time'' else ''Late'')"
  by (simp add: on_time_delivery_of_def Let_def nan_le_zero_def)

text \<open>
  Claim C4. Every row of \<open>orders_fact\<close> has an \<open>on_time_delivery\<close> value exactly when
  both duration fields are present, and a row whose duration fields are missing never
  gets \<open>'Late'\<close>. The export does otherwise for an order whose status is \<open>delivered\<close> but
  whose delivery date is NULL: \<open>actual_delivery_days\<close> and \<open>delivery_delay_days\<close> are
  missing, the comparison \<open>NaN <= 0\<close> is False, and the row is inside the mask, so it is
  exported as \<open>'Late'\<close>. (The field is present exactly for the delivered orders, and
  follows the delay wherever the delay is present: the two lemmas above.)
\<close>

theorem delivered_without_delivery_date_is_late:
  "map (\<lambda>r. (actual_delivery_days r, estimated_delivery_days r, delivery_delay_days r, on_time_delivery r))
     (export_orders_fact [delivered_order ''o1'' ''c1'' jan10 None (Some (jan10 + days 10))]
        [customer ''c1'' ''A''] [payment ''o1'' 100] [])
   = [(None, Some 10, None, Some ''Late'')]"
  by code_simp

subsection \<open>Seller delivery performance against the orders fact\<close>

text \<open>
  Claim C5. The seller's on-time predicate is computed like the \<open>on_time_delivery\<close> of
  \<open>orders_fact\<close>, on whole days, so that the two agree on every order. They do not: the
  seller side compares the \<open>JULIANDAY\<close> differences, fractions of a day included. An
  order delivered 18 hours after the estimated date, 10 days after the purchase, is
  \<open>'On Time'\<close> in \<open>orders_fact\<close> (10 whole days against 10) and not on time for its seller
  (10.75 days against 10).
\<close>

theorem seller_on_time_disagrees:
  "on_time_delivery_of
     (delivered_order ''o1'' ''c1'' jan10 (Some (jan10 + days 10 + hours 18)) (Some (jan10 + days 10)))
     = Some ''On Time'' \<and>
   delivery_where
     (delivered_order ''o1'' ''c1'' jan10 (Some (jan10 + days 10 + hours 18)) (Some (jan10 + days 10))) \<and>
   \<not> is_on_time (delivery_row_of (item ''o1'' ''s1'' 100)
        (delivered_order ''o1'' ''c1'' jan10 (Some (jan10 + days 10 + hours 18)) (Some (jan10 + days 10))))"
  by code_simp

text \<open>
  Claim C5, amended. For every order that the delivery query selects, the seller's
  durations are the exact differences in days, whose integer parts (floors) are the
  whole-day durations of \<open>orders_fact\<close>; and the seller's on-time predicate is the
  stricter one: when it holds, \<open>orders_fact\<close> says \<open>'On Time'\<close>.
\<close>

theorem seller_on_time_is_stricter:
  assumes "delivery_where o_row"
  shows "(is_on_time (delivery_row_of oi o_row) \<longrightarrow> on_time_delivery_of o_row = Some ''On Time'') \<and>
         map_option floor (delivery_days (delivery_row_of oi o_row)) = actual_delivery_days_of o_row \<and>
         map_option floor (estimated_days (delivery_row_of oi o_row)) = estimated_delivery_days_of o_row"
proof -
  from assms obtain d e where m: "delivered_mask o_row"
    and d: "order_delivered_customer_date o_row = Some d"
    and e: "order_estimated_delivery_date o_row = Some e"
    by (auto simp: delivery_where_def)
  show ?thesis
  proof (cases "order_purchase_timestamp o_row")
    case None
    then show ?thesis
      using m d e
      by (simp add: delivery_row_of_def julianday_diff_def Let_def actual_delivery_days_of_def
          estimated_delivery_days_of_def dt_days_def)
  next
    case (Some p)
    have fl: "\<lfloor>(of_int a :: rat) / of_int seconds_per_day\<rfloor> = a div seconds_per_day" for a
      by (rule floor_divide_of_int_eq)
    have mono: "(of_int (d - p) :: rat) / of_int seconds_per_day \<le> of_int (e - p) / of_int seconds_per_day
                \<Longrightarrow> (d - p) div seconds_per_day \<le> (e - p) div seconds_per_day"
    proof -
      assume "(of_int (d - p) :: rat) / of_int seconds_per_day \<le> of_int (e - p) / of_int seconds_per_day"
      then have "\<lfloor>(of_int (d - p) :: rat) / of_int seconds_per_day\<rfloor> \<le> \<lfloor>(of_int (e - p) :: rat) / of_int seconds_per_day\<rfloor>"
        by (rule floor_mono)
      then show ?thesis by (simp only: fl)
    qed
    show ?thesis
      using m d e Some mono
      by (simp add: delivery_row_of_def julianday_diff_def Let_def actual_delivery_days_of_def
          estimated_delivery_days_of_def dt_days_def on_time_delivery_of_def delivery_delay_days_of_def
          nan_sub_def nan_le_zero_def fl del: of_int_diff)
  qed
qed

theorem seller_on_time_is_stricter_witness:
  "delivery_where (delivered_order ''o1'' ''c1'' jan10 (Some (jan10 + days 5)) (Some (jan10 + days 10))) \<and>
   is_on_time (delivery_row_of (item ''o1'' ''s1'' 100)
     (delivered_order ''o1'' ''c1'' jan10 (Some (jan10 + days 5)) (Some (jan10 + days 10)))) \<and>
   on_time_delivery_of (delivered_order ''o1'' ''c1'' jan10 (Some (jan10 + days 5)) (Some (jan10 + days 10)))
     = Some ''On Time''"
proof -
  let ?o = "delivered_order ''o1'' ''c1'' jan10 (Some (jan10 + days 5)) (Some (jan10 + days 10))"
  have w: "delivery_where ?o"
    by code_simp
  have t: "is_on_time (delivery_row_of (item ''o1'' ''s1'' 100) ?o)"
    by code_simp
  from seller_on_time_is_stricter[OF w, of "item ''o1'' ''s1'' 100"] t
  have "on_time_delivery_of ?o = Some ''On Time''"
    by blast
  with w t show ?thesis by blast
qed

subsection \<open>Monthly metrics: new and returning customers\<close>

text \<open>
  Claim C7. In every month row \<open>returning_customers + new_customers = unique_customers\<close>
  and \<open>returning_customers\<close> is not negative. The export does otherwise for a month in
  which no customer is new: the month has no row in the \<open>new_customers\<close> frame, the left
  merge leaves \<open>new_customers\<close> missing, and the difference is missing too. Below, customer
  A buys in January and again in February 2024; the February row has one unique
  customer and neither count.
\<close>

theorem month_without_new_customer_has_missing_counts:
  "map (\<lambda>r. (order_month r, unique_customers r, new_customers r, returning_customers r))
     (export_monthly_metrics
        [delivered_order ''o1'' ''c1'' jan10 (Some (jan10 + days 5)) (Some (jan10 + days 10)),
         delivered_order ''o2'' ''c2'' (jan10 + days 31) (Some (jan10 + days 36)) (Some (jan10 + days 41))]
        [customer ''c1'' ''A'', customer ''c2'' ''A'']
        [payment ''o1'' 100, payment ''o2'' 50] [])
   = [(24288, 1, Some 1, Some 0), (24289, 1, None, None)]"
  by code_simp

subsection \<open>Customer segments: recency and frequency\<close>

lemma rfm_metrics_recency:
  assumes "row \<in> set (rfm_metrics customer_orders)"
  shows "1 \<le> frequency row \<and>
         (case recency row of
            Some d \<Rightarrow> 0 \<le> d \<and>
              (\<exists>ad last. analysis_date customer_orders = Some ad \<and>
                 list_max (present (map co_order_purchase_timestamp
                   (filter (\<lambda>r. co_customer_unique_id r = Some (rfm_customer_unique_id row)) customer_orders)))
                   = Some last \<and>
                 d = (ad - last) div seconds_per_day)
          | None \<Rightarrow>
              list_max (present (map co_order_purchase_timestamp
                (filter (\<lambda>r. co_customer_unique_id r = Some (rfm_customer_unique_id row)) customer_orders)))
                = None)"
proof -
  define k where "k = rfm_customer_unique_id row"
  define g where "g = filter (\<lambda>r. co_customer_unique_id r = Some k) customer_orders"
  from assms have key: "k \<in> set (groupby_keys (map co_customer_unique_id customer_orders))"
    and freq: "frequency row = length g"
    and rec: "recency row = dt_days (analysis_date customer_orders)
                              (list_max (present (map co_order_purchase_timestamp g)))"
    by (auto simp: rfm_metrics_def Let_def k_def g_def)
  from key have "Some k \<in> set (map co_customer_unique_id customer_orders)"
    by (simp add: groupby_keys_def set_present)
  then have "g \<noteq> []"
    by (auto simp: g_def filter_empty_conv)
  then have f1: "1 \<le> frequency row"
    by (simp add: freq Suc_le_eq)
  have r0: "case recency row of
            Some d \<Rightarrow> 0 \<le> d \<and>
              (\<exists>ad last. analysis_date customer_orders = Some ad \<and>
                 list_max (present (map co_order_purchase_timestamp g)) = Some last \<and>
                 d = (ad - last) div seconds_per_day)
          | None \<Rightarrow> list_max (present (map co_order_purchase_timestamp g)) = None"
  proof (cases "list_max (present (map co_order_purchase_timestamp g))")
    case None
    then have "recency row = None"
      by (simp add: rec dt_days_def split: option.splits)
    with None show ?thesis by simp
  next
    case (Some last)
    then have "last \<in> set (present (map co_order_purchase_timestamp g))"
      by (simp add: list_max_Some)
    then have mem: "last \<in> set (present (map co_order_purchase_timestamp customer_orders))"
      by (auto simp: set_present g_def)
    then obtain top where top: "list_max (present (map co_order_purchase_timestamp customer_orders)) = Some top"
      by (cases "list_max (present (map co_order_purchase_timestamp customer_orders))")
         (auto simp: list_max_None)
    with mem have "last \<le> top"
      using list_max_Some[OF top] by simp
    then have "0 \<le> (top + 1 * seconds_per_day - last) div seconds_per_day"
      by (simp add: seconds_per_day_def pos_imp_zdiv_nonneg_iff)
    moreover have "recency row = Some ((top + 1 * seconds_per_day - last) div seconds_per_day)"
      by (simp add: rec Some analysis_date_def top dt_days_def)
    moreover have "analysis_date customer_orders = Some (top + 1 * seconds_per_day)"
      by (simp add: analysis_date_def top)
    ultimately show ?thesis using Some by simp
  qed
  from f1 r0 show ?thesis unfolding k_def g_def by blast
qed

lemma export_customer_segments_rows:
  assumes "export_customer_segments version customers orders order_payments = Inr out"
    and "r \<in> set out"
  shows "cs_rfm r \<in> set (rfm_metrics (customer_orders_query customers orders order_payments)) \<and>
         last_purchase_date r =
           list_max (present (map co_order_purchase_timestamp
             (filter (\<lambda>c. co_customer_unique_id c = Some (rfm_customer_unique_id (cs_rfm r)))
                (customer_orders_query customers orders order_payments))))"
proof -
  let ?co = "customer_orders_query customers orders order_payments"
  from assms(1) obtain rs fs ms where
    out: "out = map (\<lambda>(row, r, f, m).
            let g = filter (\<lambda>c. co_customer_unique_id c = Some (rfm_customer_unique_id row)) ?co;
                first_date = list_min (present (map co_order_purchase_timestamp g));
                last_date = list_max (present (map co_order_purchase_timestamp g))
            in \<lparr> cs_rfm = row, r_score = r, f_score = f, m_score = m,
                 rfm_score = rfm_score_str version r f m,
                 segment = segment_customer r f,
                 first_purchase_date = first_date,
                 last_purchase_date = last_date,
                 customer_tenure_days = dt_days last_date first_date,
                 cs_avg_order_value =
                   (if frequency row = 0 then None
                    else Some (monetary row / of_nat (frequency row))) \<rparr>)
          (zip (rfm_metrics ?co) (zip rs (zip fs ms)))"
    by (auto simp: export_customer_segments_def Let_def split: sum.splits prod.splits)
  from assms(2) obtain row a b c where z: "(row, a, b, c) \<in> set (zip (rfm_metrics ?co) (zip rs (zip fs ms)))"
    and r: "cs_rfm r = row"
           "last_purchase_date r = list_max (present (map co_order_purchase_timestamp
              (filter (\<lambda>c. co_customer_unique_id c = Some (rfm_customer_unique_id row)) ?co)))"
    unfolding out by (auto simp: Let_def)
  from z have "row \<in> set (rfm_metrics ?co)"
    by (rule set_zip_leftD)
  with r show ?thesis by simp
qed

text \<open>
  Claim C8. Every customer in the \<open>customer_segments\<close> output has frequency at least 1
  and recency at least 0. The export does otherwise for a customer none of whose
  delivered orders has a purchase timestamp: there is no last purchase date, and the
  recency is missing. Below, customer F has one delivered order, without purchase
  timestamp; the export completes, under either version of pandas.
\<close>

theorem undated_customer_has_no_recency:
  "\<not> isl (export_customer_segments Before_3_0 undated_customers undated_orders undated_payments) \<and>
   map (\<lambda>r. (rfm_customer_unique_id (cs_rfm r), frequency (cs_rfm r), recency (cs_rfm r)))
     (projr (export_customer_segments Before_3_0 undated_customers undated_orders undated_payments))
     = [(''A'', 2, Some 3), (''B'', 1, Some 1), (''C'', 1, Some 2), (''D'', 1, Some 4),
        (''E'', 1, Some 5), (''F'', 1, None)] \<and>
   \<not> isl (export_customer_segments From_3_0 undated_customers undated_orders undated_payments) \<and>
   map (\<lambda>r. (rfm_customer_unique_id (cs_rfm r), frequency (cs_rfm r), recency (cs_rfm r)))
     (projr (export_customer_segments From_3_0 undated_customers undated_orders undated_payments))
     = [(''A'', 2, Some 3), (''B'', 1, Some 1), (''C'', 1, Some 2), (''D'', 1, Some 4),
        (''E'', 1, Some 5), (''F'', 1, None)]"
  by code_simp

text \<open>
  Claim C8, amended. Every customer in the \<open>customer_segments\<close> output has frequency at
  least 1. A customer with a last purchase date has the recency of the claim, the
  whole-day difference between the analysis date (the latest purchase timestamp of all
  delivered orders plus one day) and that date, and it is at least 0; a customer
  without a last purchase date has a missing recency.
\<close>

theorem segments_frequency_recency:
  assumes "export_customer_segments version customers orders order_payments = Inr out"
    and "r \<in> set out"
  shows "1 \<le> frequency (cs_rfm r) \<and>
         (case recency (cs_rfm r) of
            Some d \<Rightarrow> 0 \<le> d \<and>
              (\<exists>ad last. analysis_date (customer_orders_query customers orders order_payments) = Some ad \<and>
                 last_purchase_date r = Some last \<and> d = (ad - last) div seconds_per_day)
          | None \<Rightarrow> last_purchase_date r = None)"
proof -
  from export_customer_segments_rows[OF assms]
  have m: "cs_rfm r \<in> set (rfm_metrics (customer_orders_query customers orders order_payments))"
    and l: "list_max (present (map co_order_purchase_timestamp
             (filter (\<lambda>c. co_customer_unique_id c = Some (rfm_customer_unique_id (cs_rfm r)))
                (customer_orders_query customers orders order_payments)))) = last_purchase_date r"
    by simp_all
  from rfm_metrics_recency[OF m] show ?thesis
    unfolding l .
qed

theorem segments_frequency_recency_witness:
  "export_customer_segments Before_3_0 five_customers spread_orders five_payments
     = Inr (projr (export_customer_segments Before_3_0 five_customers spread_orders five_payments)) \<and>
   hd (projr (export_customer_segments Before_3_0 five_customers spread_orders five_payments))
     \<in> set (projr (export_customer_segments Before_3_0 five_customers spread_orders five_payments)) \<and>
   recency (cs_rfm (hd (projr (export_customer_segments Before_3_0 five_customers spread_orders five_payments))))
     = Some 3 \<and>
   frequency (cs_rfm (hd (projr (export_customer_segments Before_3_0 five_customers spread_orders five_payments))))
     = 2 \<and>
   1 \<le> frequency (cs_rfm (hd (projr (export_customer_segments Before_3_0 five_customers spread_orders five_payments))))"
proof -
  let ?res = "export_customer_segments Before_3_0 five_customers spread_orders five_payments"
  have "\<not> isl ?res"
    by code_simp
  then have e: "?res = Inr (projr ?res)"
    by simp
  have "projr ?res \<noteq> []"
    by code_simp
  then have m: "hd (projr ?res) \<in> set (projr ?res)"
    by (rule hd_in_set)
  have r: "recency (cs_rfm (hd (projr ?res))) = Some 3"
    by code_simp
  have f: "frequency (cs_rfm (hd (projr ?res))) = 2"
    by code_simp
  from segments_frequency_recency[OF e m] have "1 \<le> frequency (cs_rfm (hd (projr ?res)))"
    by blast
  with e m r f show ?thesis by blast
qed

subsection \<open>Customer segments: the frequency score\<close>

lemma position_nth:
  "a \<in> set l \<Longrightarrow> position a l < length l \<and> l ! position a l = a"
proof (induction l)
  case Nil
  then show ?case by simp
next
  case (Cons x l)
  then show ?case by (cases "x = a") (auto simp: position_def)
qed

lemma argsort_props:
  "set (argsort xs) = {0..<length xs}" "distinct (argsort xs)" "length (argsort xs) = length xs"
  by (simp_all add: argsort_def)

lemma positions_perm:
  "set (map (\<lambda>i. position i (argsort xs)) [0..<length xs]) = {0..<length xs}"
  "distinct (map (\<lambda>i. position i (argsort xs)) [0..<length xs])"
proof -
  let ?l = "argsort xs" and ?n = "length xs"
  let ?p = "\<lambda>i. position i ?l"
  have inj: "inj_on ?p {0..<?n}"
  proof (rule inj_onI)
    fix i j assume i: "i \<in> {0..<?n}" and j: "j \<in> {0..<?n}" and eq: "?p i = ?p j"
    from i have a: "?l ! ?p i = i"
      using position_nth[of i ?l] argsort_props(1)[of xs] by blast
    from j have b: "?l ! ?p j = j"
      using position_nth[of j ?l] argsort_props(1)[of xs] by blast
    from a b eq show "i = j" by metis
  qed
  have sub: "?p ` {0..<?n} \<subseteq> {0..<?n}"
    using position_nth[of _ ?l] by (auto simp: argsort_props)
  have "card (?p ` {0..<?n}) = card {0..<?n}"
    using inj by (rule card_image)
  with sub have "?p ` {0..<?n} = {0..<?n}"
    by (intro card_subset_eq) simp_all
  then show "set (map ?p [0..<?n]) = {0..<?n}" by simp
  show "distinct (map ?p [0..<?n])"
    using inj by (simp add: distinct_map)
qed

lemma sort_rank_first:
  "sort (rank_first xs) = map of_nat [1..<Suc (length xs)]"
proof (rule sorted_distinct_set_unique)
  let ?n = "length xs"
  let ?p = "\<lambda>i. position i (argsort xs)"
  let ?f = "\<lambda>k. (of_nat (Suc k) :: rat)"
  have rf: "rank_first xs = map ?f (map ?p [0..<?n])"
    by (simp add: rank_first_def comp_def)
  have injf: "inj ?f"
    by (rule injI) simp
  show "sorted (sort (rank_first xs))" by simp
  show "distinct (sort (rank_first xs))"
    unfolding rf distinct_sort
    by (rule iffD2[OF distinct_map]) (use positions_perm(2)[of xs] injf in \<open>auto intro: inj_on_subset\<close>)
  show "sorted (map of_nat [1..<Suc ?n] :: rat list)"
    by (simp add: sorted_map sorted_wrt_upt del: upt_Suc)
  show "distinct (map of_nat [1..<Suc ?n] :: rat list)"
    by (simp add: distinct_map inj_on_def del: upt_Suc)
  have "set (sort (rank_first xs)) = ?f ` set (map ?p [0..<?n])"
    unfolding rf by (simp only: set_sort set_map)
  also have "\<dots> = ?f ` {0..<?n}"
    by (simp only: positions_perm(1))
  also have "\<dots> = (of_nat :: nat \<Rightarrow> rat) ` Suc ` {0..<?n}"
    by (simp only: image_image)
  also have "Suc ` {0..<?n} = {1..<Suc ?n}"
    by (simp only: image_Suc_atLeastLessThan One_nat_def)
  also have "(of_nat :: nat \<Rightarrow> rat) ` {1..<Suc ?n} = set (map of_nat [1..<Suc ?n])"
    by (simp only: set_map set_upt)
  finally show "set (sort (rank_first xs)) = set (map of_nat [1..<Suc ?n] :: rat list)" .
qed


lemma quantile_ranks:
  assumes s: "sort vals = map of_nat [1..<Suc n]" and n: "1 \<le> n" and k: "k \<le> q" and q: "0 < q"
  shows "quantile vals (of_nat k / of_nat q) = 1 + of_nat k / of_nat q * of_nat (n - 1)"
proof -
  define pos :: rat where "pos = of_nat k / of_nat q * of_nat (n - 1)"
  define lo where "lo = nat \<lfloor>pos\<rfloor>"
  have "length (sort vals) = n"
    unfolding s by simp
  then have len: "length vals = n"
    by simp
  have frac_le: "(of_nat k / of_nat q :: rat) \<le> 1"
    using k q by simp
  have pos0: "0 \<le> pos"
    unfolding pos_def by simp
  have "of_nat k / of_nat q * (of_nat (n - 1) :: rat) \<le> 1 * of_nat (n - 1)"
    using frac_le by (intro mult_right_mono) simp_all
  then have posn: "pos \<le> of_nat (n - 1)"
    unfolding pos_def by (simp only: mult_1)
  have fl0: "0 \<le> \<lfloor>pos\<rfloor>"
    using pos0 by simp
  have "\<lfloor>pos\<rfloor> \<le> \<lfloor>of_nat (n - 1) :: rat\<rfloor>"
    using posn by (rule floor_mono)
  then have fln: "\<lfloor>pos\<rfloor> \<le> int (n - 1)"
    by simp
  have lo_le: "lo \<le> n - 1"
    unfolding lo_def using fln fl0 by linarith
  have lo_eq: "(of_nat lo :: rat) = of_int \<lfloor>pos\<rfloor>"
    unfolding lo_def using fl0 by (metis of_nat_nat)
  have nth: "sort vals ! i = of_nat (Suc i)" if "i < n" for i
    unfolding s using that by (simp del: upt_Suc)
  have lo_lt: "lo < n"
    using lo_le n by simp
  have q_eq: "quantile vals (of_nat k / of_nat q) =
      sort vals ! lo + (sort vals ! min (lo + 1) (n - 1) - sort vals ! lo) * (pos - of_int \<lfloor>pos\<rfloor>)"
    by (simp add: quantile_def Let_def len pos_def lo_def)
  show ?thesis
  proof (cases "lo + 1 \<le> n - 1")
    case True
    then have hi: "min (lo + 1) (n - 1) = lo + 1" and hi_lt: "lo + 1 < n"
      using n by simp_all
    have "quantile vals (of_nat k / of_nat q) = of_nat (Suc lo) + (of_nat (Suc (lo + 1)) - of_nat (Suc lo)) * (pos - of_int \<lfloor>pos\<rfloor>)"
      unfolding q_eq hi using nth[OF lo_lt] nth[OF hi_lt] by simp
    also have "\<dots> = 1 + pos"
      using lo_eq by simp
    finally show ?thesis by (simp add: pos_def)
  next
    case False
    then have lo_n: "lo = n - 1"
      using lo_le by simp
    then have hi: "min (lo + 1) (n - 1) = lo"
      by simp
    have "of_int \<lfloor>pos\<rfloor> \<le> pos"
      by simp
    then have "of_nat (n - 1) \<le> pos"
      using lo_eq lo_n by simp
    with posn have pos_eq: "pos = of_nat (n - 1)"
      by simp
    have "quantile vals (of_nat k / of_nat q) = of_nat (Suc lo)"
      unfolding q_eq hi using nth[OF lo_lt] by simp
    also have "\<dots> = 1 + pos"
      using pos_eq lo_n by simp
    finally show ?thesis by (simp add: pos_def)
  qed
qed

lemma cut_label_defined:
  assumes len: "length bins = 6" and lo: "hd bins \<le> v" and hi: "v \<le> bins ! 5"
  shows "\<exists>k. cut_label bins [1, 2, 3, 4, 5] (Some v) = Some k \<and> 1 \<le> k \<and> k \<le> 5"
proof (cases "v = hd bins")
  case True
  then show ?thesis using len by (simp add: cut_label_def)
next
  case False
  define m where "m = searchsorted_left bins v"
  from len obtain b0 rest where bins: "bins = b0 # rest"
    by (cases bins) auto
  with lo False have "b0 < v" by simp
  then have m1: "1 \<le> m"
    by (simp add: m_def searchsorted_left_def bins)
  have m5: "m \<le> 5"
  proof (rule ccontr)
    assume "\<not> m \<le> 5"
    then have 5: "5 < length (takeWhile (\<lambda>b. b < v) bins)"
      by (simp add: m_def searchsorted_left_def)
    then have "takeWhile (\<lambda>b. b < v) bins ! 5 \<in> set (takeWhile (\<lambda>b. b < v) bins)"
      by (rule nth_mem)
    then have "takeWhile (\<lambda>b. b < v) bins ! 5 < v"
      by (rule set_takeWhileD[THEN conjunct2])
    moreover have "takeWhile (\<lambda>b. b < v) bins ! 5 = bins ! 5"
      using 5 by (rule takeWhile_nth)
    ultimately show False using hi by simp
  qed
  from m1 m5 have "m = 1 \<or> m = 2 \<or> m = 3 \<or> m = 4 \<or> m = 5"
    by auto
  then have "\<exists>k. Some ([1, 2, 3, 4, 5 :: int] ! (m - 1)) = Some k \<and> 1 \<le> k \<and> k \<le> 5"
    by auto
  moreover have "cut_label bins [1, 2, 3, 4, 5] (Some v) = Some ([1, 2, 3, 4, 5] ! (m - 1))"
    using False m1 m5 len by (simp add: cut_label_def m_def[symmetric])
  ultimately show ?thesis by simp
qed

lemma qcut_distinct_edges:
  assumes "present x = v # vs"
    and "distinct (map (\<lambda>k. quantile (v # vs) (of_nat k / of_nat q)) [0..<q + 1])"
    and "length labels = q"
  shows "qcut x q labels dup =
           Inr (map (cut_label (map (\<lambda>k. quantile (v # vs) (of_nat k / of_nat q)) [0..<q + 1]) labels) x)"
  using assms by (simp add: qcut_def Let_def unique_keys_distinct del: upt_Suc)

lemma rank_first_bounds:
  assumes "v \<in> set (rank_first xs)"
  shows "1 \<le> v \<and> v \<le> of_nat (length xs)"
proof -
  from assms have "v \<in> set (sort (rank_first xs))" by simp
  then obtain k where "v = of_nat k" "1 \<le> k" "k < Suc (length xs)"
    unfolding sort_rank_first by (auto simp del: upt_Suc)
  then show ?thesis by simp
qed

lemma qcut_rank_first:
  assumes n: "2 \<le> length xs"
  shows "\<exists>scores. qcut (map Some (rank_first xs)) 5 [1, 2, 3, 4, 5] Raise = Inr scores \<and>
           length scores = length xs \<and>
           (\<forall>i < length scores. \<exists>k. scores ! i = Some k \<and> 1 \<le> k \<and> k \<le> 5)"
proof -
  define ranks where "ranks = rank_first xs"
  define c :: rat where "c = of_nat (length xs - 1)"
  define bins where "bins = map (\<lambda>k. quantile ranks (of_nat k / of_nat 5)) [0..<5 + 1]"
  have len: "length ranks = length xs"
    by (simp add: ranks_def rank_first_def)
  have srt: "sort ranks = map of_nat [1..<Suc (length xs)]"
    unfolding ranks_def by (rule sort_rank_first)
  have c0: "0 < c"
    unfolding c_def using n by simp
  have q: "quantile ranks (of_nat k / of_nat 5) = 1 + of_nat k / of_nat 5 * c" if "k \<le> 5" for k
    unfolding c_def using srt that n by (intro quantile_ranks) simp_all
  have bins_eq: "bins = map (\<lambda>k. 1 + of_nat k / of_nat 5 * c) [0..<6]"
    unfolding bins_def by (rule map_cong) (simp_all add: q del: upt_Suc of_nat_numeral)
  have inj: "inj (\<lambda>k::nat. 1 + of_nat k / of_nat 5 * c)"
    using c0 by (intro injI) simp
  have dist: "distinct bins"
    unfolding bins_eq by (simp only: distinct_map distinct_upt) (rule conjI[OF TrueI inj_on_subset[OF inj subset_UNIV]])
  have blen: "length bins = 6"
    by (simp add: bins_def)
  have b0: "hd bins = 1"
    unfolding bins_eq by (simp add: upt_rec)
  have b5: "bins ! 5 = of_nat (length xs)"
  proof -
    have "bins ! 5 = 1 + of_nat 5 / of_nat 5 * c"
      unfolding bins_eq by (simp del: upt_Suc of_nat_numeral)
    also have "\<dots> = of_nat (length xs)"
      unfolding c_def using n by (simp add: of_nat_diff)
    finally show ?thesis .
  qed
  from len n obtain v vs where ranks_cons: "ranks = v # vs"
    by (cases ranks) auto
  have pres: "present (map Some ranks) = v # vs"
    by (simp only: present_map_Some ranks_cons)
  have dist': "distinct (map (\<lambda>k. quantile (v # vs) (of_nat k / of_nat 5)) [0..<5 + 1])"
    using dist unfolding bins_def ranks_cons .
  have "qcut (map Some ranks) 5 [1, 2, 3, 4, 5] Raise =
          Inr (map (cut_label bins [1, 2, 3, 4, 5]) (map Some ranks))"
    unfolding bins_def ranks_cons
    by (rule qcut_distinct_edges[OF pres[unfolded ranks_cons] dist']) simp
  moreover have "\<exists>k. map (cut_label bins [1, 2, 3, 4, 5]) (map Some ranks) ! i = Some k \<and> 1 \<le> k \<and> k \<le> 5"
    if "i < length xs" for i
  proof -
    have "ranks ! i \<in> set (rank_first xs)"
      using that len by (simp add: ranks_def)
    then have "1 \<le> ranks ! i \<and> ranks ! i \<le> of_nat (length xs)"
      by (rule rank_first_bounds)
    then have "\<exists>k. cut_label bins [1, 2, 3, 4, 5] (Some (ranks ! i)) = Some k \<and> 1 \<le> k \<and> k \<le> 5"
      using blen b0 b5 by (intro cut_label_defined) simp_all
    then show ?thesis using that len by simp
  qed
  ultimately show ?thesis
    using len by (simp add: ranks_def)
qed

text \<open>
  Claim C10. For a population of at least five customers the frequency score is
  defined, a number from 1 to 5, for every customer: the frequencies are replaced by
  their ranks under \<open>method='first'\<close>, which are all different, so the quantile edges never
  repeat (also when all frequencies are the same), \<open>qcut\<close> does not raise and every rank
  falls into a bucket.
\<close>

theorem f_score_always_defined:
  assumes "5 \<le> length rfm"
  shows "\<exists>scores. f_score_column rfm = Inr scores \<and> length scores = length rfm \<and>
           (\<forall>i < length scores. \<exists>k. scores ! i = Some k \<and> 1 \<le> k \<and> k \<le> 5)"
proof -
  from assms have "2 \<le> length (map frequency rfm)"
    by simp
  from qcut_rank_first[OF this] show ?thesis
    by (simp add: f_score_column_def)
qed

theorem f_score_always_defined_witness:
  "5 \<le> length (rfm_metrics (customer_orders_query five_customers five_orders five_payments)) \<and>
   map frequency (rfm_metrics (customer_orders_query five_customers five_orders five_payments))
     = [1, 1, 1, 1, 1] \<and>
   f_score_column (rfm_metrics (customer_orders_query five_customers five_orders five_payments))
     = Inr [Some 1, Some 2, Some 3, Some 4, Some 5]"
proof -
  let ?rfm = "rfm_metrics (customer_orders_query five_customers five_orders five_payments)"
  have h: "5 \<le> length ?rfm"
    by code_simp
  have f: "map frequency ?rfm = [1, 1, 1, 1, 1]"
    by code_simp
  have e: "f_score_column ?rfm = Inr [Some 1, Some 2, Some 3, Some 4, Some 5]"
    by code_simp
  from f_score_always_defined[OF h] obtain scores where "f_score_column ?rfm = Inr scores"
    by blast
  with h f e show ?thesis by blast
qed

subsection \<open>Customer segments: a degenerate quantile split\<close>

lemma drop_duplicates_from_length:
  "length (drop_duplicates_from key seen xs) \<le> length xs"
  by (induction xs arbitrary: seen) (auto simp: le_SucI)

lemma drop_duplicates_from_shorter:
  "\<not> distinct xs \<or> set xs \<inter> set seen \<noteq> {} \<Longrightarrow>
     length (drop_duplicates_from (\<lambda>k. k) seen xs) < length xs"
proof (induction xs arbitrary: seen)
  case Nil
  then show ?case by simp
next
  case (Cons x xs)
  show ?case
  proof (cases "x \<in> set seen")
    case True
    then show ?thesis
      using drop_duplicates_from_length[of "\<lambda>k. k" seen xs] by (simp add: less_Suc_eq_le)
  next
    case False
    with Cons.prems have "\<not> distinct xs \<or> set xs \<inter> set (x # seen) \<noteq> {}"
      by auto
    from Cons.IH[OF this] False show ?thesis by simp
  qed
qed

lemma unique_keys_shorter: "\<not> distinct ks \<Longrightarrow> length (unique_keys ks) < length ks"
  by (simp add: unique_keys_def drop_duplicates_def drop_duplicates_from_shorter)

lemma qcut_drop_repeated_edges:
  assumes "present x = v # vs"
    and "\<not> distinct (map (\<lambda>k. quantile (v # vs) (of_nat k / of_nat q)) [0..<q + 1])"
    and "length labels = q" and "2 \<le> q"
  shows "qcut x q labels Drop = Inl Bin_labels_must_be_one_fewer_than_the_number_of_bin_edges"
proof -
  let ?bins = "map (\<lambda>k. quantile (v # vs) (of_nat k / of_nat q)) [0..<q + 1]"
  have "length (unique_keys ?bins) < length ?bins"
    using assms(2) by (rule unique_keys_shorter)
  then have "length (unique_keys ?bins) < q + 1"
    by simp
  then show ?thesis
    using assms(1,3,4) by (simp add: qcut_def Let_def del: upt_Suc)
qed

text \<open>
  Claim C1. When a dimension cannot be split into five distinct quantile groups, the
  affected customers get a missing score and the export still produces one row per
  customer. The export does otherwise: \<open>duplicates='drop'\<close> merges the repeated edges, the
  five labels no longer fit the buckets that remain, and \<open>qcut\<close> raises. Below, three of
  five customers bought last on the same day (recency 1, 1, 1, 2, 3), which repeats the
  edge 1; the monetary values are all different. By \<open>qcut_drop_repeated_edges\<close> the same
  happens whenever an edge repeats. The version of pandas plays no part.
\<close>

theorem repeated_recency_edges_raise:
  "map recency (rfm_metrics (customer_orders_query five_customers five_orders five_payments))
     = [Some 1, Some 1, Some 1, Some 2, Some 3] \<and>
   export_customer_segments Before_3_0 five_customers five_orders five_payments
     = Inl Bin_labels_must_be_one_fewer_than_the_number_of_bin_edges \<and>
   export_customer_segments From_3_0 five_customers five_orders five_payments
     = Inl Bin_labels_must_be_one_fewer_than_the_number_of_bin_edges"
  by code_simp

subsection \<open>Customer segments: undefined scores\<close>

text \<open>
  Claim C3. A customer with an undefined \<open>r_score\<close>, \<open>f_score\<close> or \<open>m_score\<close> has both
  \<open>rfm_score\<close> and \<open>segment\<close> equal to \<open>'Unknown'\<close>. The export does otherwise for the
  combined code: nothing replaces it by \<open>'Unknown'\<close>. Customer F below has no purchase
  timestamp, hence no recency and no \<open>r_score\<close>; the segment is \<open>'Unknown'\<close>, and the
  combined code is the concatenation with the text of the missing score before pandas
  3.0, and missing from 3.0 on.
\<close>

theorem undefined_score_code_is_not_unknown:
  "\<not> isl (export_customer_segments Before_3_0 undated_customers undated_orders undated_payments) \<and>
   map (\<lambda>r. (rfm_customer_unique_id (cs_rfm r), r_score r, f_score r, m_score r, rfm_score r, segment r))
     (projr (export_customer_segments Before_3_0 undated_customers undated_orders undated_payments))
     = [(''A'', Some 3, Some 5, Some 1, Some ''351'', ''Loyal Customers''),
        (''B'', Some 5, Some 1, Some 1, Some ''511'', ''New Customers''),
        (''C'', Some 4, Some 1, Some 2, Some ''412'', ''New Customers''),
        (''D'', Some 2, Some 2, Some 3, Some ''223'', ''Hibernating''),
        (''E'', Some 1, Some 3, Some 4, Some ''134'', ''At Risk''),
        (''F'', None, Some 4, Some 5, Some ''<NA>45'', ''Unknown'')] \<and>
   \<not> isl (export_customer_segments From_3_0 undated_customers undated_orders undated_payments) \<and>
   map (\<lambda>r. (rfm_customer_unique_id (cs_rfm r), r_score r, f_score r, m_score r, rfm_score r, segment r))
     (projr (export_customer_segments From_3_0 undated_customers undated_orders undated_payments))
     = [(''A'', Some 3, Some 5, Some 1, Some ''351'', ''Loyal Customers''),
        (''B'', Some 5, Some 1, Some 1, Some ''511'', ''New Customers''),
        (''C'', Some 4, Some 1, Some 2, Some ''412'', ''New Customers''),
        (''D'', Some 2, Some 2, Some 3, Some ''223'', ''Hibernating''),
        (''E'', Some 1, Some 3, Some 4, Some ''134'', ''At Risk''),
        (''F'', None, Some 4, Some 5, None, ''Unknown'')]"
  by code_simp

text \<open>A \<open>qcut\<close> into five groups that does not raise labels every value that is present:
  the six edges are then all different, the first is the least value and the last the
  greatest.\<close>

lemma quantile_0: "quantile vals 0 = sort vals ! 0"
  by (simp add: quantile_def Let_def)

lemma quantile_1: "quantile vals 1 = sort vals ! (length vals - 1)"
  by (simp add: quantile_def Let_def)

lemma sort_bounds:
  assumes "v \<in> set vals"
  shows "sort vals ! 0 \<le> v \<and> v \<le> sort vals ! (length vals - 1)"
proof -
  from assms have "v \<in> set (sort vals)"
    by simp
  then obtain i where i: "i < length (sort vals)" "sort vals ! i = v"
    by (metis in_set_conv_nth)
  have "sort vals ! 0 \<le> sort vals ! i"
    using i(1) by (intro sorted_nth_mono) simp_all
  moreover have "sort vals ! i \<le> sort vals ! (length vals - 1)"
    using i(1) by (intro sorted_nth_mono) simp_all
  ultimately show ?thesis
    using i(2) by simp
qed

lemma qcut_repeated_edges:
  assumes "present x = v # vs"
    and "\<not> distinct (map (\<lambda>k. quantile (v # vs) (of_nat k / of_nat q)) [0..<q + 1])"
    and "length labels = q" and "2 \<le> q"
  shows "isl (qcut x q labels dup)"
proof -
  let ?bins = "map (\<lambda>k. quantile (v # vs) (of_nat k / of_nat q)) [0..<q + 1]"
  have "length (unique_keys ?bins) < length ?bins"
    using assms(2) by (rule unique_keys_shorter)
  then have "length (unique_keys ?bins) < q + 1"
    by simp
  then show ?thesis
    using assms(1,3,4) by (cases dup) (simp_all add: qcut_def Let_def del: upt_Suc)
qed

lemma cut_label_present:
  assumes len: "length bins = 6" and lo: "hd bins \<le> v" and hi: "v \<le> bins ! 5"
  shows "cut_label bins labels (Some v) \<noteq> None"
proof (cases "v = hd bins")
  case True
  then show ?thesis using len by (simp add: cut_label_def)
next
  case False
  define m where "m = searchsorted_left bins v"
  from len obtain b0 rest where bins: "bins = b0 # rest"
    by (cases bins) auto
  with lo False have "b0 < v" by simp
  then have m1: "1 \<le> m"
    by (simp add: m_def searchsorted_left_def bins)
  have m5: "m \<le> 5"
  proof (rule ccontr)
    assume "\<not> m \<le> 5"
    then have 5: "5 < length (takeWhile (\<lambda>b. b < v) bins)"
      by (simp add: m_def searchsorted_left_def)
    then have "takeWhile (\<lambda>b. b < v) bins ! 5 \<in> set (takeWhile (\<lambda>b. b < v) bins)"
      by (rule nth_mem)
    then have "takeWhile (\<lambda>b. b < v) bins ! 5 < v"
      by (rule set_takeWhileD[THEN conjunct2])
    moreover have "takeWhile (\<lambda>b. b < v) bins ! 5 = bins ! 5"
      using 5 by (rule takeWhile_nth)
    ultimately show False using hi by simp
  qed
  show ?thesis
    using False m1 m5 len by (simp add: cut_label_def m_def[symmetric])
qed

lemma qcut_5_labels_all:
  assumes q: "qcut (map Some vals) 5 labels dup = Inr scores" and l: "length labels = 5"
  shows "None \<notin> set scores"
proof -
  have "vals \<noteq> []"
    using q by (auto simp: qcut_def present_def split: duplicates.splits)
  then obtain v vs where vals: "vals = v # vs"
    by (cases vals) auto
  define bins where "bins = map (\<lambda>k. quantile (v # vs) (of_nat k / of_nat 5)) [0..<5 + 1]"
  have pres: "present (map Some vals) = v # vs"
    by (simp only: present_map_Some vals)
  have dist: "distinct bins"
  proof (rule ccontr)
    assume "\<not> distinct bins"
    then have "isl (qcut (map Some vals) 5 labels dup)"
      unfolding bins_def using pres l by (intro qcut_repeated_edges) simp_all
    with q show False by simp
  qed
  have "qcut (map Some vals) 5 labels dup = Inr (map (cut_label bins labels) (map Some vals))"
    unfolding bins_def by (rule qcut_distinct_edges[OF pres dist[unfolded bins_def] l])
  with q have scores: "scores = map (cut_label bins labels) (map Some vals)"
    by simp
  have blen: "length bins = 6"
    by (simp add: bins_def)
  have b0: "hd bins = sort vals ! 0"
    by (simp add: bins_def upt_rec quantile_0 vals)
  have "bins ! 5 = quantile (v # vs) (of_nat 5 / of_nat 5)"
    unfolding bins_def by (simp del: upt_Suc of_nat_numeral)
  then have b5: "bins ! 5 = sort vals ! (length vals - 1)"
    by (simp add: quantile_1 vals)
  have "cut_label bins labels (Some w) \<noteq> None" if "w \<in> set vals" for w
    using blen sort_bounds[OF that] by (intro cut_label_present) (simp_all add: b0 b5)
  then have "\<forall>w\<in>set vals. cut_label bins labels (Some w) \<noteq> None"
    by metis
  then show ?thesis
    unfolding scores by (metis (no_types, lifting) imageE list.set_map)
qed

lemma export_customer_segments_scores:
  assumes "export_customer_segments version customers orders order_payments = Inr out"
    and "row \<in> set out"
  shows "m_score row \<noteq> None \<and>
         segment row = segment_customer (r_score row) (f_score row) \<and>
         rfm_score row = rfm_score_str version (r_score row) (f_score row) (m_score row)"
proof -
  let ?co = "customer_orders_query customers orders order_payments"
  from assms(1) obtain rs fs ms where
    sc: "rfm_scores (rfm_metrics ?co) = Inr (rs, fs, ms)" and
    out: "out = map (\<lambda>(row, r, f, m).
            let g = filter (\<lambda>c. co_customer_unique_id c = Some (rfm_customer_unique_id row)) ?co;
                first_date = list_min (present (map co_order_purchase_timestamp g));
                last_date = list_max (present (map co_order_purchase_timestamp g))
            in \<lparr> cs_rfm = row, r_score = r, f_score = f, m_score = m,
                 rfm_score = rfm_score_str version r f m,
                 segment = segment_customer r f,
                 first_purchase_date = first_date,
                 last_purchase_date = last_date,
                 customer_tenure_days = dt_days last_date first_date,
                 cs_avg_order_value =
                   (if frequency row = 0 then None
                    else Some (monetary row / of_nat (frequency row))) \<rparr>)
          (zip (rfm_metrics ?co) (zip rs (zip fs ms)))"
    by (auto simp: export_customer_segments_def Let_def split: sum.splits prod.splits)
  from sc have "m_score_column (rfm_metrics ?co) = Inr ms"
    by (auto simp: rfm_scores_def split: sum.splits)
  then have "qcut (map Some (map monetary (rfm_metrics ?co))) 5 [1, 2, 3, 4, 5] Drop = Inr ms"
    by (simp add: m_score_column_def comp_def)
  then have ms: "None \<notin> set ms"
    by (rule qcut_5_labels_all) simp
  from assms(2) obtain x a b c where z: "(x, a, b, c) \<in> set (zip (rfm_metrics ?co) (zip rs (zip fs ms)))"
    and r: "r_score row = a" "f_score row = b" "m_score row = c"
           "segment row = segment_customer a b" "rfm_score row = rfm_score_str version a b c"
    unfolding out by (auto simp: Let_def)
  from z have "c \<in> set ms"
    by (auto dest!: set_zip_rightD)
  with ms have "c \<noteq> None"
    by metis
  with r show ?thesis
    by metis
qed

lemma rfm_score_str_undefined:
  assumes "r = None \<or> f = None \<or> m = None" and "rfm_score_str version r f m = Some s"
  shows "CHR ''<'' \<in> set s \<and> 3 < length s"
proof (cases version)
  case Before_3_0
  with assms show ?thesis
    by (cases r; cases f; cases m) (auto simp: rfm_score_str_def astype_str_def str_add_def)
next
  case From_3_0
  with assms show ?thesis
    by (cases r; cases f; cases m) (auto simp: rfm_score_str_def astype_str_def str_add_def)
qed

text \<open>
  Claim C3, amended. For every customer in the segmentation output, if any of the three
  dimension scores is undefined, then the segment is \<open>'Unknown'\<close>; the combined code is
  not \<open>'Unknown'\<close> and not a code of three characters: it is what the text conversion of
  the library makes of the missing score, a missing value or a longer text. No digit is
  put in the place of the score.
\<close>

theorem undefined_score_segment_unknown:
  assumes "export_customer_segments version customers orders order_payments = Inr out"
    and "row \<in> set out"
    and "r_score row = None \<or> f_score row = None \<or> m_score row = None"
  shows "segment row = ''Unknown'' \<and> rfm_score row \<noteq> Some ''Unknown'' \<and>
         (\<forall>s. rfm_score row = Some s \<longrightarrow> 3 < length s)"
proof -
  from export_customer_segments_scores[OF assms(1,2)]
  have m: "m_score row \<noteq> None"
    and sg: "segment row = segment_customer (r_score row) (f_score row)"
    and cd: "rfm_score row = rfm_score_str version (r_score row) (f_score row) (m_score row)"
    by simp_all
  from m assms(3) have "r_score row = None \<or> f_score row = None"
    by metis
  then have 1: "segment row = ''Unknown''"
    unfolding sg by (auto simp: segment_customer_def split: option.splits)
  have 2: "CHR ''<'' \<in> set s \<and> 3 < length s" if "rfm_score row = Some s" for s
    using rfm_score_str_undefined[OF assms(3)] that unfolding cd by simp
  have "rfm_score row \<noteq> Some ''Unknown''"
  proof
    assume "rfm_score row = Some ''Unknown''"
    from 2[OF this] show False by simp
  qed
  with 1 2 show ?thesis by blast
qed

theorem undefined_score_segment_unknown_witness:
  "export_customer_segments Before_3_0 undated_customers undated_orders undated_payments
     = Inr (projr (export_customer_segments Before_3_0 undated_customers undated_orders undated_payments)) \<and>
   last (projr (export_customer_segments Before_3_0 undated_customers undated_orders undated_payments))
     \<in> set (projr (export_customer_segments Before_3_0 undated_customers undated_orders undated_payments)) \<and>
   r_score (last (projr (export_customer_segments Before_3_0 undated_customers undated_orders undated_payments)))
     = None \<and>
   segment (last (projr (export_customer_segments Before_3_0 undated_customers undated_orders undated_payments)))
     = ''Unknown'' \<and>
   rfm_score (last (projr (export_customer_segments Before_3_0 undated_customers undated_orders undated_payments)))
     \<noteq> Some ''Unknown''"
proof -
  let ?res = "export_customer_segments Before_3_0 undated_customers undated_orders undated_payments"
  have "\<not> isl ?res"
    by code_simp
  then have e: "?res = Inr (projr ?res)"
    by simp
  have "projr ?res \<noteq> []"
    by code_simp
  then have m: "last (projr ?res) \<in> set (projr ?res)"
    by (rule last_in_set)
  have r: "r_score (last (projr ?res)) = None"
    by code_simp
  then have u: "r_score (last (projr ?res)) = None \<or> f_score (last (projr ?res)) = None
      \<or> m_score (last (projr ?res)) = None"
    by simp
  from undefined_score_segment_unknown[OF e m u]
  have "segment (last (projr ?res)) = ''Unknown''" "rfm_score (last (projr ?res)) \<noteq> Some ''Unknown''"
    by blast+
  with e m r show ?thesis by blast
qed

subsection \<open>Seller performance: revenue normalisation\<close>

text \<open>
  Claim C2. When every seller has the same total revenue, the normalisation is guarded:
  no NaN reaches a \<open>composite_score\<close> and \<open>revenue_score\<close> is 100 for every seller. The
  export has no such guard: with two sellers of revenue 100 each, \<open>revenue_score\<close> is
  \<open>0/0\<close>, NaN, and so are \<open>composite_score\<close> and \<open>seller_rank\<close>.
\<close>

theorem equal_revenue_gives_nan_scores:
  "map (\<lambda>r. (revenue_score r, composite_score r, seller_rank r))
     (export_seller_performance [seller ''s1'', seller ''s2'']
        [item ''o1'' ''s1'' 100, item ''o2'' ''s2'' 100]
        [delivered_order ''o1'' ''c1'' jan10 (Some (jan10 + days 5)) (Some (jan10 + days 10)),
         delivered_order ''o2'' ''c2'' jan10 (Some (jan10 + days 5)) (Some (jan10 + days 10))]
        [review ''o1'' 5, review ''o2'' 4])
   = [(None, None, None), (None, None, None)]"
  by code_simp

lemma revenue_score_zero_variance:
  assumes "\<forall>r \<in> set frame. sm_total_revenue r = c" and "row \<in> set frame"
  shows "revenue_score_of frame row = None"
proof -
  from assms(2) obtain x xs where fr: "frame = x # xs"
    by (cases frame) auto
  have "sm_total_revenue x = c" "\<forall>v\<in>set (map sm_total_revenue xs). v = c"
    using assms(1) fr by auto
  then have "list_min (map sm_total_revenue frame) = Some c" "list_max (map sm_total_revenue frame) = Some c"
    by (simp_all add: list_min_def list_max_def fr fold_min_const fold_max_const)
  moreover have "sm_total_revenue row = c"
    using assms by simp
  ultimately show ?thesis
    by (simp add: revenue_score_of_def fl_def fl_sub_def fl_neg_def fl_add_def fl_div_def fl_mul_def
        xinf_def xsgn_def)
qed

lemma composite_score_zero_variance:
  assumes "\<forall>r \<in> set frame. sm_total_revenue r = c" and "row \<in> set frame"
  shows "composite_score_of frame row = None"
  using revenue_score_zero_variance[OF assms]
  by (simp add: composite_score_of_def fl_mul_def fl_add_def fl_round_def)

text \<open>
  Claim C2, amended. When every seller has the same total revenue, the division by
  zero is not guarded: \<open>revenue_score\<close> is NaN for every seller, and the NaN is carried
  into every seller's \<open>composite_score\<close>.
\<close>

theorem zero_variance_revenue_gives_nan:
  assumes "\<forall>row \<in> set frame. sm_total_revenue row = c"
  shows "\<forall>r \<in> set (seller_scores frame). revenue_score r = None \<and> composite_score r = None"
proof
  fix r assume "r \<in> set (seller_scores frame)"
  then obtain row rank
    where zr: "(row, rank) \<in> set (zip frame (seller_ranks (map (composite_score_of frame) frame)))"
      and r: "revenue_score r = revenue_score_of frame row"
             "composite_score r = composite_score_of frame row"
    by (auto simp: seller_scores_def)
  from zr have row: "row \<in> set frame"
    by (rule set_zip_leftD)
  show "revenue_score r = None \<and> composite_score r = None"
    using r revenue_score_zero_variance[OF assms row] composite_score_zero_variance[OF assms row]
    by simp
qed

theorem zero_variance_revenue_gives_nan_witness:
  "list_all (\<lambda>row. sm_total_revenue row = 50) equal_revenue_frame \<and>
   length (seller_scores equal_revenue_frame) = 3 \<and>
   list_all (\<lambda>r. revenue_score r = None \<and> composite_score r = None)
     (seller_scores equal_revenue_frame)"
proof -
  have h: "\<forall>row \<in> set equal_revenue_frame. sm_total_revenue row = 50"
    by (simp add: equal_revenue_frame_def seller_with_revenue_def)
  have l: "length (seller_scores equal_revenue_frame) = 3"
    by code_simp
  from zero_variance_revenue_gives_nan[OF h] h l show ?thesis
    by (simp add: list_all_iff)
qed

subsection \<open>Seller performance: ranks\<close>

lemma position_sorted_desc:
  "sorted (rev s) \<Longrightarrow> v \<in> set s \<Longrightarrow> position v s = length (filter (\<lambda>y. v < y) s)"
proof (induction s)
  case Nil
  then show ?case by simp
next
  case (Cons y ys)
  from Cons.prems(1) have ge: "\<forall>z\<in>set ys. z \<le> y" and srt: "sorted (rev ys)"
    by (auto simp: sorted_append)
  show ?case
  proof (cases "y = v")
    case True
    with ge have "filter (\<lambda>z. v < z) ys = []"
      by (auto simp: filter_empty_conv)
    with True show ?thesis by (simp add: position_def)
  next
    case False
    with Cons.prems(2) have mem: "v \<in> set ys" by simp
    with ge False have "v < y" by auto
    moreover have "position v ys = length (filter (\<lambda>y. v < y) ys)"
      using Cons.IH srt mem by simp
    ultimately show ?thesis using False by (simp add: position_def)
  qed
qed

lemma length_filter_rev_sort:
  "length (filter P (rev (sort ys))) = length (filter P ys)"
proof -
  have "filter P (rev (sort ys)) = rev (sort (filter P ys))"
    by (simp add: rev_filter[symmetric] filter_sort)
  then show ?thesis by simp
qed

lemma rank_min_desc_nth:
  assumes "i < length xs"
  shows "rank_min_desc xs ! i =
           map_option (\<lambda>v. Suc (length (filter (\<lambda>y. v < y) (present xs)))) (xs ! i)"
proof (cases "xs ! i")
  case None
  with assms show ?thesis by (simp add: rank_min_desc_def)
next
  case (Some v)
  have "Some v \<in> set xs" using assms Some by (metis nth_mem)
  then have "v \<in> set (present xs)"
    by (force simp: present_def)
  then have "position v (rev (sort (present xs))) = length (filter (\<lambda>y. v < y) (rev (sort (present xs))))"
    by (intro position_sorted_desc) simp_all
  then show ?thesis
    using assms Some by (simp add: rank_min_desc_def length_filter_rev_sort)
qed

lemma length_filter_less:
  assumes "\<And>x. x \<in> set xs \<Longrightarrow> P x \<Longrightarrow> Q x" and "a \<in> set xs" and "Q a" and "\<not> P a"
  shows "length (filter P xs) < length (filter Q xs)"
  using assms
proof (induction xs)
  case Nil
  then show ?case by simp
next
  case (Cons x xs)
  have le: "length (filter P xs) \<le> length (filter Q xs)"
  proof -
    have "filter P xs = filter P (filter Q xs)"
      using Cons.prems(1) by (auto intro: filter_cong)
    then show ?thesis by (metis length_filter_le)
  qed
  show ?case
  proof (cases "x = a")
    case True
    with Cons.prems le show ?thesis by simp
  next
    case False
    with Cons.prems have "a \<in> set xs" by simp
    then have "length (filter P xs) < length (filter Q xs)"
      using Cons by simp
    then show ?thesis using Cons.prems(1)[of x] by auto
  qed
qed

lemma rank_min_desc_strict:
  assumes "i < length xs" "j < length xs" "xs ! i = Some a" "xs ! j = Some b" "b < a"
  shows "\<exists>ri rj. rank_min_desc xs ! i = Some ri \<and> rank_min_desc xs ! j = Some rj \<and> ri < rj"
proof -
  have "Some a \<in> set xs" using assms by (metis nth_mem)
  then have mem: "a \<in> set (present xs)" by (force simp: present_def)
  have "length (filter (\<lambda>y. a < y) (present xs)) < length (filter (\<lambda>y. b < y) (present xs))"
    using mem assms(5) by (intro length_filter_less[where a = a]) auto
  then show ?thesis using assms by (simp add: rank_min_desc_nth)
qed

lemma seller_scores_rows:
  assumes "r \<in> set (seller_scores frame)"
  shows "\<exists>i < length frame. composite_score r = map (composite_score_of frame) frame ! i \<and>
           seller_rank r = seller_ranks (map (composite_score_of frame) frame) ! i"
proof -
  let ?cs = "map (composite_score_of frame) frame"
  have len: "length (seller_ranks ?cs) = length frame"
    by (simp add: seller_ranks_def rank_min_desc_def)
  from assms obtain row rank where zr: "(row, rank) \<in> set (zip frame (seller_ranks ?cs))"
    and r: "composite_score r = composite_score_of frame row" "seller_rank r = rank"
    by (auto simp: seller_scores_def)
  from zr obtain i where "i < length frame" "frame ! i = row" "seller_ranks ?cs ! i = rank"
    using len by (auto simp: set_zip)
  with r show ?thesis by auto
qed

text \<open>
  Claim C6. Seller ranks follow minimum rank on ties over \<open>composite_score\<close> descending:
  two sellers with equal scores have equal ranks, and of two sellers with different
  scores the one with the higher score has the strictly smaller rank. With two sellers
  at 87.50 and one at 90.00, the two get rank 2 and the third rank 1.
\<close>

theorem seller_rank_min_on_ties:
  "(\<forall>r1 \<in> set (seller_scores frame). \<forall>r2 \<in> set (seller_scores frame).
      (composite_score r1 = composite_score r2 \<longrightarrow> seller_rank r1 = seller_rank r2) \<and>
      (\<forall>a b. composite_score r1 = Some a \<and> composite_score r2 = Some b \<and> b < a \<longrightarrow>
         (\<exists>k1 k2. seller_rank r1 = Some k1 \<and> seller_rank r2 = Some k2 \<and> k1 < k2)))
   \<and> seller_ranks [Some (Fin (8750 / 100)), Some (Fin (8750 / 100)), Some (Fin (9000 / 100))]
       = [Some 2, Some 2, Some 1]"
proof (intro conjI ballI allI impI)
  let ?cs = "map (composite_score_of frame) frame"
  fix r1 r2
  assume m1: "r1 \<in> set (seller_scores frame)" and m2: "r2 \<in> set (seller_scores frame)"
  from seller_scores_rows[OF m1] obtain i where i: "i < length ?cs"
    "composite_score r1 = ?cs ! i" "seller_rank r1 = seller_ranks ?cs ! i" by auto
  from seller_scores_rows[OF m2] obtain j where j: "j < length ?cs"
    "composite_score r2 = ?cs ! j" "seller_rank r2 = seller_ranks ?cs ! j" by auto
  {
    assume "composite_score r1 = composite_score r2"
    then show "seller_rank r1 = seller_rank r2"
      using i j by (simp add: seller_ranks_def rank_min_desc_nth del: length_map)
  }
  {
    fix a b
    assume "composite_score r1 = Some a \<and> composite_score r2 = Some b \<and> b < a"
    then show "\<exists>k1 k2. seller_rank r1 = Some k1 \<and> seller_rank r2 = Some k2 \<and> k1 < k2"
      using rank_min_desc_strict[of i ?cs j a b] i j by (simp add: seller_ranks_def)
  }
next
  show "seller_ranks [Some (Fin (8750 / 100)), Some (Fin (8750 / 100)), Some (Fin (9000 / 100))]
       = [Some 2, Some 2, Some 1]"
    by code_simp
qed

theorem seller_rank_min_on_ties_witness:
  "map composite_score (export_seller_performance example_sellers example_items example_orders example_reviews)
     = [Some (Fin 51), Some (Fin 92)] \<and>
   (\<exists>k1 k2.
      seller_rank (export_seller_performance example_sellers example_items example_orders example_reviews ! 1)
        = Some k1 \<and>
      seller_rank (export_seller_performance example_sellers example_items example_orders example_reviews ! 0)
        = Some k2 \<and> k1 < k2)"
proof -
  let ?frame = "seller_metrics example_sellers example_items example_orders example_reviews"
  let ?out = "seller_scores ?frame"
  have c: "map composite_score ?out = [Some (Fin 51), Some (Fin 92)]"
    by code_simp
  have len: "length ?out = 2"
    using arg_cong[OF c, of length] by simp
  then have m: "?out ! 1 \<in> set ?out" "?out ! 0 \<in> set ?out"
    by simp_all
  have "map composite_score ?out ! 1 = Some (Fin 92)" "map composite_score ?out ! 0 = Some (Fin 51)"
    unfolding c by simp_all
  then have s: "composite_score (?out ! 1) = Some (Fin 92)" "composite_score (?out ! 0) = Some (Fin 51)"
    using len by simp_all
  have lt: "Fin 51 < Fin 92"
    by (simp add: less_xrat_def)
  from seller_rank_min_on_ties[of ?frame] m s lt
  have "\<exists>k1 k2. seller_rank (?out ! 1) = Some k1 \<and> seller_rank (?out ! 0) = Some k2 \<and> k1 < k2"
    by blast
  with c show ?thesis
    unfolding export_seller_performance_def by blast
qed

end
